theory Spec2Isabelle
  imports Main "HOL-Library.Sublist" "HOL-Library.AList"
begin

section \<open>Python values shared by the three stages\<close>

text \<open>
  Exceptions of the source are values: a function that may raise returns
  \<open>error + 'a\<close>, with \<open>Inl\<close> the exception that leaves it.
\<close>

datatype error =
    FileNotFoundError
  | KeyError
  | TypeError
  | AttributeError
  | ValueError
  | IndexError
  | JSONDecodeError
  | RequestException
  | ServiceError
  | UnicodeEncodeError

text \<open>
  A string stands for a Python \<open>str\<close> by the bytes of its UTF-8 encoding (a lone
  surrogate, which UTF-8 refuses, by the three bytes of the same scheme).
  \<open>str.strip()\<close> removes the leading and trailing white space of Unicode: the ten
  characters of the ASCII range, U+0085 and U+00A0 (two bytes), and U+1680, U+2000 to
  U+200A, U+2028, U+2029, U+202F, U+205F and U+3000 (three bytes).
\<close>

definition is_space :: "char \<Rightarrow> bool" where
  "is_space c = (c \<in> set [CHR 0x09, CHR 0x0A, CHR 0x0B, CHR 0x0C, CHR 0x0D,
                           CHR 0x1C, CHR 0x1D, CHR 0x1E, CHR 0x1F, CHR 0x20])"

definition is_space2 :: "char \<Rightarrow> char \<Rightarrow> bool" where
  "is_space2 a b = (a = CHR 0xC2 \<and> (b = CHR 0x85 \<or> b = CHR 0xA0))"

definition is_space3 :: "char \<Rightarrow> char \<Rightarrow> char \<Rightarrow> bool" where
  "is_space3 a b c =
     ((a = CHR 0xE1 \<and> b = CHR 0x9A \<and> c = CHR 0x80)
      \<or> (a = CHR 0xE2 \<and> b = CHR 0x80 \<and>
          c \<in> set [CHR 0x80, CHR 0x81, CHR 0x82, CHR 0x83, CHR 0x84, CHR 0x85, CHR 0x86,
                     CHR 0x87, CHR 0x88, CHR 0x89, CHR 0x8A, CHR 0xA8, CHR 0xA9, CHR 0xAF])
      \<or> (a = CHR 0xE2 \<and> b = CHR 0x81 \<and> c = CHR 0x9F)
      \<or> (a = CHR 0xE3 \<and> b = CHR 0x80 \<and> c = CHR 0x80))"

text \<open>White space is removed from the front; the end is treated on the reversed string.\<close>

fun lstrip :: "string \<Rightarrow> string" where
  "lstrip (a # b # c # s) =
     (if is_space a then lstrip (b # c # s)
      else if is_space2 a b then lstrip (c # s)
      else if is_space3 a b c then lstrip s
      else a # b # c # s)"
| "lstrip [a, b] =
     (if is_space a then lstrip [b] else if is_space2 a b then [] else [a, b])"
| "lstrip [a] = (if is_space a then [] else [a])"
| "lstrip [] = []"

fun rstrip_rev :: "string \<Rightarrow> string" where
  "rstrip_rev (c # b # a # s) =
     (if is_space c then rstrip_rev (b # a # s)
      else if is_space2 b c then rstrip_rev (a # s)
      else if is_space3 a b c then rstrip_rev s
      else c # b # a # s)"
| "rstrip_rev [c, b] =
     (if is_space c then rstrip_rev [b] else if is_space2 b c then [] else [c, b])"
| "rstrip_rev [c] = (if is_space c then [] else [c])"
| "rstrip_rev [] = []"

definition py_strip :: "string \<Rightarrow> string" where
  "py_strip s = rev (rstrip_rev (rev (lstrip s)))"

text \<open>\<open>sep.join(xs)\<close>.\<close>

fun join :: "string \<Rightarrow> string list \<Rightarrow> string" where
  "join sep [] = []"
| "join sep [x] = x"
| "join sep (x # y # ys) = x @ sep @ join sep (y # ys)"

text \<open>\<open>s.rsplit("/", 1)[-1]\<close>: what follows the last slash, the whole string without one.\<close>

definition rsplit_last :: "string \<Rightarrow> string" where
  "rsplit_last s = rev (takeWhile (\<lambda>c. c \<noteq> CHR ''/'') (rev s))"

text \<open>\<open>x or ""\<close> for an optional string.\<close>

definition or_empty :: "string option \<Rightarrow> string" where
  "or_empty x = (case x of None \<Rightarrow> [] | Some s \<Rightarrow> s)"

text \<open>A file system is a map from paths to contents.\<close>

type_synonym fs = "string \<rightharpoonup> string"


section \<open>Feed harvester (src/datasource/arxiv\_crawler.py)\<close>

text \<open>
  An entry of the parsed feed. Every field that \<open>entry_to_rawdoc\<close> reads with
  \<open>e.get\<close> is optional; an author is represented by its \<open>name\<close> attribute, a tag by
  its \<open>term\<close>, a link by its \<open>type\<close> and \<open>href\<close>.
\<close>

record entry =
  e_id :: "string option"
  e_title :: "string option"
  e_summary :: "string option"
  e_authors :: "string option list"
  e_tags :: "string option list"
  e_primary_term :: "string option"
  e_links :: "(string option \<times> string option) list"
  e_published :: "string option"
  e_updated :: "string option"
  e_comment :: "string option"
  e_journal_ref :: "string option"
  e_doi :: "string option"

text \<open>The dictionary that \<open>entry_to_rawdoc\<close> returns has fourteen fixed keys.\<close>

record rawdoc =
  arxiv_id :: string
  title :: string
  abstract :: string
  authors :: "string list"
  primary_category :: string
  categories :: "string list"
  published :: "string option"
  updated :: "string option"
  url_abs :: "string option"
  url_pdf :: "string option"
  comment :: "string option"
  journal_ref :: "string option"
  doi :: "string option"
  crawl_date :: "string option"

definition build_query :: "string list \<Rightarrow> string option \<Rightarrow> string" where
  "build_query cats_in query =
     (let cats = map py_strip (filter (\<lambda>c. py_strip c \<noteq> []) cats_in);
          cat_clause = join '' OR '' (map (\<lambda>c. ''cat:'' @ c) cats);
          cat_clause = (if cat_clause \<noteq> [] then ''('' @ cat_clause @ '')'' else [])
      in if or_empty query \<noteq> [] \<and> cat_clause \<noteq> []
         then cat_clause @ '' AND '' @ or_empty query
         else if or_empty query \<noteq> [] then or_empty query
         else if cat_clause \<noteq> [] then cat_clause
         else ''all'')"

text \<open>The loops of \<open>entry_to_rawdoc\<close> that keep the truthy names and terms.\<close>

fun truthy_strings :: "string option list \<Rightarrow> string list" where
  "truthy_strings [] = []"
| "truthy_strings (None # xs) = truthy_strings xs"
| "truthy_strings (Some s # xs) = (if s \<noteq> [] then s # truthy_strings xs else truthy_strings xs)"

text \<open>The first link whose type is \<open>application/pdf\<close> gives the PDF address.\<close>

fun first_pdf_link :: "(string option \<times> string option) list \<Rightarrow> string option" where
  "first_pdf_link [] = None"
| "first_pdf_link ((ty, href) # ls) =
     (if ty = Some ''application/pdf'' then href else first_pdf_link ls)"

definition entry_to_rawdoc :: "entry \<Rightarrow> string option \<Rightarrow> rawdoc" where
  "entry_to_rawdoc e cd =
     \<lparr> arxiv_id = rsplit_last (or_empty (e_id e)),
       title = py_strip (or_empty (e_title e)),
       abstract = py_strip (or_empty (e_summary e)),
       authors = truthy_strings (e_authors e),
       primary_category = or_empty (e_primary_term e),
       categories = truthy_strings (e_tags e),
       published = e_published e,
       updated = e_updated e,
       url_abs = e_id e,
       url_pdf = first_pdf_link (e_links e),
       comment = e_comment e,
       journal_ref = e_journal_ref e,
       doi = e_doi e,
       crawl_date = cd \<rparr>"

text \<open>
  \<open>_write_jsonl\<close>: the loop over \<open>enumerate(docs)\<close> writes the serialised record and,
  unless it is the last one, a newline. \<open>dumps\<close> stands for
  \<open>json.dumps(d, ensure_ascii=False)\<close>.
\<close>

fun write_loop :: "('d \<Rightarrow> string) \<Rightarrow> nat \<Rightarrow> nat \<Rightarrow> 'd list \<Rightarrow> string \<Rightarrow> string" where
  "write_loop dumps n i [] f = f"
| "write_loop dumps n i (d # ds) f =
     (let f1 = f @ dumps d;
          f2 = (if int i < int n - 1 then f1 @ [CHR 0x0A] else f1)
      in write_loop dumps n (Suc i) ds f2)"

definition write_jsonl :: "('d \<Rightarrow> string) \<Rightarrow> fs \<Rightarrow> string \<Rightarrow> 'd list \<Rightarrow> fs" where
  "write_jsonl dumps files path docs = files(path \<mapsto> write_loop dumps (length docs) 0 docs [])"

text \<open>
  One answer of the feed service to a page request: \<open>requests.get\<close> raises
  (connection error, timeout), or it returns a status code and a body, of which the
  model keeps the entries that \<open>feedparser.parse\<close> finds. The service is a function
  of the request number and of the request's \<open>search_query\<close>, \<open>start\<close> and
  \<open>max_results\<close>.
\<close>

datatype response = Raises | Resp int "entry list"

type_synonym feed = "nat \<Rightarrow> string \<Rightarrow> int \<Rightarrow> int \<Rightarrow> response"

text \<open>
  The \<open>while\<close> loop of \<open>_fetch_results\<close>, with \<open>k\<close> the number of requests sent
  so far. The \<open>try ... finally\<close> around it closes the progress bar and catches nothing.
\<close>

function fetch_loop :: "feed \<Rightarrow> string \<Rightarrow> int \<Rightarrow> nat \<Rightarrow> int \<Rightarrow> entry list \<Rightarrow> error + entry list" where
  "fetch_loop srv query max_results k fetched results =
     (if fetched < max_results then
        (case srv k query fetched (min 2000 (max_results - fetched)) of
           Raises \<Rightarrow> Inl RequestException
         | Resp status entries \<Rightarrow>
             if status \<noteq> 200 then Inr results
             else if entries = [] then Inr results
             else fetch_loop srv query max_results (Suc k)
                    (fetched + int (length entries)) (results @ entries))
      else Inr results)"
  by pat_completeness auto
termination
  by (relation "measure (\<lambda>(srv, query, max_results, k, fetched, results). nat (max_results - fetched))")
     auto

definition fetch_results :: "feed \<Rightarrow> string \<Rightarrow> int \<Rightarrow> error + entry list" where
  "fetch_results srv query max_results = fetch_loop srv query max_results 0 0 []"

text \<open>
  The number of entries in the first \<open>i\<close> pages of a run, which is the \<open>start\<close>
  offset of request \<open>i\<close>.
\<close>

definition received :: "entry list list \<Rightarrow> nat \<Rightarrow> int" where
  "received pages i = int (length (concat (take i pages)))"

text \<open>The de-duplication loop of \<open>crawl_arxiv_to_jsonl\<close>, with its two accumulators.\<close>

fun dedupe_loop :: "string set \<Rightarrow> rawdoc list \<Rightarrow> rawdoc list \<Rightarrow> rawdoc list" where
  "dedupe_loop seen deduped [] = deduped"
| "dedupe_loop seen deduped (d # ds) =
     (if arxiv_id d \<noteq> [] \<and> arxiv_id d \<notin> seen
      then dedupe_loop (insert (arxiv_id d) seen) (deduped @ [d]) ds
      else dedupe_loop seen deduped ds)"

text \<open>\<open>"-".join(c.replace(".", "_") for c in categories) or "all"\<close>.\<close>

definition cats_name :: "string list \<Rightarrow> string" where
  "cats_name cs =
     (let n = join ''-'' (map (map (\<lambda>c. if c = CHR ''.'' then CHR ''_'' else c)) cs)
      in if n \<noteq> [] then n else ''all'')"

text \<open>
  \<open>crawl_arxiv_to_jsonl\<close>. \<open>timestamp\<close> is the formatted \<open>datetime.now()\<close>,
  \<open>abspath\<close> is \<open>os.path.abspath\<close>. The result is the pair the source returns and the
  file system after the write. The write is the last statement: when the fetch raises, the
  exception leaves the function before it and the file system is as it was.
\<close>

definition outpath :: "string \<Rightarrow> string list \<Rightarrow> string" where
  "outpath timestamp cs = ''data/raw/'' @ timestamp @ ''_'' @ cats_name cs @ ''.jsonl''"

definition crawl_arxiv_to_jsonl ::
  "feed \<Rightarrow> (rawdoc \<Rightarrow> string) \<Rightarrow> (string \<Rightarrow> string) \<Rightarrow> string \<Rightarrow> fs \<Rightarrow>
   string list \<Rightarrow> int \<Rightarrow> string option \<Rightarrow> error + ((nat \<times> string) \<times> fs)" where
  "crawl_arxiv_to_jsonl srv dumps abspath timestamp files cs max_results query =
     (let out = outpath timestamp cs;
          cd = take 8 timestamp;
          full_query = build_query cs query
      in case fetch_results srv full_query max_results of
           Inl err \<Rightarrow> Inl err
         | Inr entries \<Rightarrow>
             let rawdocs = map (\<lambda>e. entry_to_rawdoc e (Some cd)) entries;
                 deduped = dedupe_loop {} [] rawdocs
             in Inr ((length deduped, abspath out), write_jsonl dumps files out deduped))"


section \<open>JSON values and dictionaries\<close>

text \<open>
  What \<open>json.loads\<close> returns. A dictionary is an association list in insertion order,
  read with \<open>map_of\<close> and updated in place with \<open>AList.update\<close>, as a Python
  \<open>dict\<close> keeps the position of a key that is assigned again.
\<close>

datatype jval =
    JNull
  | JBool bool
  | JNum int
  | JStr string
  | JArr "jval list"
  | JObj "(string \<times> jval) list"

type_synonym dict = "(string \<times> jval) list"

text \<open>\<open>d.get(k, default)\<close>; \<open>d.get(k)\<close> is \<open>get_or d k JNull\<close>.\<close>

definition get_or :: "dict \<Rightarrow> string \<Rightarrow> jval \<Rightarrow> jval" where
  "get_or d k dflt = (case map_of d k of None \<Rightarrow> dflt | Some v \<Rightarrow> v)"

text \<open>Truth value of a JSON value in a Python condition.\<close>

fun truthy :: "jval \<Rightarrow> bool" where
  "truthy JNull = False"
| "truthy (JBool b) = b"
| "truthy (JNum n) = (n \<noteq> 0)"
| "truthy (JStr s) = (s \<noteq> [])"
| "truthy (JArr xs) = (xs \<noteq> [])"
| "truthy (JObj kvs) = (kvs \<noteq> [])"

text \<open>
  \<open>d.get(k, "")\<close> as the receiver of \<open>.strip()\<close>: only a string has that method,
  any other value raises \<open>AttributeError\<close>.
\<close>

definition get_str :: "dict \<Rightarrow> string \<Rightarrow> error + string" where
  "get_str d k =
     (case get_or d k (JStr []) of JStr s \<Rightarrow> Inr s | _ \<Rightarrow> Inl AttributeError)"

text \<open>\<open>result.get(k, default)\<close> on a parsed JSON value: only an object has \<open>get\<close>.\<close>

definition jget :: "jval \<Rightarrow> string \<Rightarrow> jval \<Rightarrow> error + jval" where
  "jget v k dflt = (case v of JObj d \<Rightarrow> Inr (get_or d k dflt) | _ \<Rightarrow> Inl AttributeError)"

text \<open>
  \<open>s.replace(old, new)\<close> for a non-empty \<open>old\<close>: occurrences are replaced from left
  to right and do not overlap. The counter is the number of characters of a match still
  to be skipped.
\<close>

fun replace_loop :: "string \<Rightarrow> string \<Rightarrow> nat \<Rightarrow> string \<Rightarrow> string" where
  "replace_loop old new k [] = []"
| "replace_loop old new (Suc k) (c # s) = replace_loop old new k s"
| "replace_loop old new 0 (c # s) =
     (if prefix old (c # s) then new @ replace_loop old new (length old - 1) s
      else c # replace_loop old new 0 s)"

definition py_replace :: "string \<Rightarrow> string \<Rightarrow> string \<Rightarrow> string" where
  "py_replace old new s = replace_loop old new 0 s"

text \<open>
  The lines of a newline-delimited text: each ends with its newline, but the last when
  the text does not end with one.
\<close>

fun lines_loop :: "string \<Rightarrow> string \<Rightarrow> string list" where
  "lines_loop cur [] = (if cur = [] then [] else [cur])"
| "lines_loop cur (c # cs) =
     (if c = CHR 0x0A then (cur @ [c]) # lines_loop [] cs else lines_loop (cur @ [c]) cs)"

definition ndjson_lines :: "string \<Rightarrow> string list" where
  "ndjson_lines content = lines_loop [] content"

text \<open>
  Reading a file opened in text mode: \<open>\r\n\<close> and a lone \<open>\r\<close> are
  translated to \<open>\n\<close>, and \<open>for line in f\<close> yields the lines of the
  translated text.
\<close>

fun universal_newlines :: "string \<Rightarrow> string" where
  "universal_newlines (c # d # s) =
     (if c = CHR 0x0D \<and> d = CHR 0x0A then CHR 0x0A # universal_newlines s
      else if c = CHR 0x0D then CHR 0x0A # universal_newlines (d # s)
      else c # universal_newlines (d # s))"
| "universal_newlines [c] = (if c = CHR 0x0D then [CHR 0x0A] else [c])"
| "universal_newlines [] = []"

definition file_lines :: "string \<Rightarrow> string list" where
  "file_lines content = ndjson_lines (universal_newlines content)"

text \<open>
  A text can be written to a file opened with \<open>encoding="utf-8"\<close> unless it holds
  a lone surrogate (U+D800 to U+DFFF), whose three bytes start with \<open>ED\<close> and a byte
  from \<open>A0\<close> to \<open>BF\<close> (top bits 101); then the write raises
  \<open>UnicodeEncodeError\<close>.
\<close>

fun has_surrogate :: "string \<Rightarrow> bool" where
  "has_surrogate (a # b # s) =
     ((a = CHR 0xED \<and> digit7 b \<and> \<not> digit6 b \<and> digit5 b) \<or> has_surrogate (b # s))"
| "has_surrogate [a] = False"
| "has_surrogate [] = False"

text \<open>
  \<open>[json.loads(line) for line in f if line.strip()]\<close>, with \<open>loads\<close> giving
  \<open>None\<close> where \<open>json.loads\<close> raises.
\<close>

fun read_records :: "(string \<Rightarrow> jval option) \<Rightarrow> string list \<Rightarrow> error + jval list" where
  "read_records loads [] = Inr []"
| "read_records loads (l # ls) =
     (if py_strip l = [] then read_records loads ls
      else case loads l of
             None \<Rightarrow> Inl JSONDecodeError
           | Some v \<Rightarrow> (case read_records loads ls of
                          Inl e \<Rightarrow> Inl e
                        | Inr vs \<Rightarrow> Inr (v # vs)))"


section \<open>Document enricher (src/preprocess)\<close>

text \<open>
  The services the enricher calls. \<open>http_get\<close> is the download of
  \<open>download_pdf\<close>: it is refused before the cache file is opened (connection error,
  error status), it breaks after part of the body was written, or it delivers the body.
  \<open>read_pdf\<close> is PyMuPDF on the content of a file: it raises, finds no page, or gives
  the text of the first page. \<open>chat\<close> is the completion request (\<open>None\<close> when it
  raises), \<open>detect\<close> is \<open>langdetect.detect\<close> (\<open>None\<close> when it raises),
  \<open>cache_name\<close> is \<open>_extract_arxiv_id_from_url\<close>. The two prompts are read from
  files when the module is loaded.
\<close>

datatype download = Refused | Broken string | Body string

datatype pdf_read = Unreadable | NoPages | FirstPage string

record penv =
  lang_detect :: "string \<Rightarrow> string option"
  cache_name :: "string \<Rightarrow> string"
  http_get :: "string \<Rightarrow> download"
  read_pdf :: "string \<Rightarrow> pdf_read"
  chat :: "string \<Rightarrow> string option"
  json_loads :: "string \<Rightarrow> jval option"
  json_dumps :: "dict \<Rightarrow> string"
  base_prompt :: string
  nometadata_prompt :: string

subsection \<open>pdf\_parser.py\<close>

definition cached_pdf_path :: "penv \<Rightarrow> string \<Rightarrow> string" where
  "cached_pdf_path env url = ''data/pdf_cache/'' @ cache_name env url @ ''.pdf''"

definition download_pdf :: "penv \<Rightarrow> fs \<Rightarrow> string \<Rightarrow> bool \<Rightarrow> (error + string option) \<times> fs" where
  "download_pdf env files url force =
     (if url = [] \<or> \<not> prefix ''http'' url then (Inl ValueError, files)
      else let path = cached_pdf_path env url
           in if files path \<noteq> None \<and> \<not> force then (Inr (Some path), files)
              else case http_get env url of
                     Refused \<Rightarrow> (Inr None, files)
                   | Broken part \<Rightarrow> (Inr None, files(path \<mapsto> part))
                   | Body b \<Rightarrow> (Inr (Some path), files(path \<mapsto> b)))"

definition extract_first_page_text_from_pdf :: "penv \<Rightarrow> fs \<Rightarrow> string \<Rightarrow> string" where
  "extract_first_page_text_from_pdf env files pdf_path =
     (case files pdf_path of
        None \<Rightarrow> []
      | Some content \<Rightarrow>
          (case read_pdf env content of
             Unreadable \<Rightarrow> []
           | NoPages \<Rightarrow> []
           | FirstPage t \<Rightarrow> py_strip t))"

definition extract_first_page_text :: "penv \<Rightarrow> fs \<Rightarrow> string \<Rightarrow> bool \<Rightarrow> (error + string) \<times> fs" where
  "extract_first_page_text env files url force_redownload =
     (case download_pdf env files url force_redownload of
        (Inl e, files1) \<Rightarrow> (Inl e, files1)
      | (Inr None, files1) \<Rightarrow> (Inr [], files1)
      | (Inr (Some pdf_path), files1) \<Rightarrow>
          if files1 pdf_path = None then (Inr [], files1)
          else (Inr (extract_first_page_text_from_pdf env files1 pdf_path), files1))"

subsection \<open>llm\_extract.py\<close>

definition llm_extract_metadata :: "penv \<Rightarrow> string \<Rightarrow> string \<Rightarrow> error + jval" where
  "llm_extract_metadata env text prompt =
     (case chat env (py_replace ''<TEXT>'' text prompt) of
        None \<Rightarrow> Inl ServiceError
      | Some content \<Rightarrow>
          (case json_loads env (py_strip content) of
             None \<Rightarrow> Inl ValueError
           | Some v \<Rightarrow> Inr v))"

subsection \<open>preprocess.py\<close>

definition detect_language :: "penv \<Rightarrow> string \<Rightarrow> string" where
  "detect_language env text = (case lang_detect env text of None \<Rightarrow> ''unknown'' | Some l \<Rightarrow> l)"

text \<open>
  Step 1 of \<open>extract_metadata\<close>: when \<open>url_pdf\<close> is truthy, the first-page text is
  stored under \<open>pdf_raw\<close>; every exception of the attempt is caught and leaves the
  record as it is. A truthy value that is not a string has no \<open>startswith\<close>, which
  raises inside the \<open>try\<close>.
\<close>

definition step_pdf :: "penv \<Rightarrow> fs \<Rightarrow> dict \<Rightarrow> dict \<Rightarrow> dict \<times> fs" where
  "step_pdf env files doc metadata =
     (let url_pdf = get_or doc ''url_pdf'' JNull
      in if truthy url_pdf then
           (case url_pdf of
              JStr u \<Rightarrow>
                (case extract_first_page_text env files u False of
                   (Inr text, files1) \<Rightarrow> (AList.update ''pdf_raw'' (JStr text) metadata, files1)
                 | (Inl e, files1) \<Rightarrow> (metadata, files1))
            | _ \<Rightarrow> (metadata, files))
         else (metadata, files))"

text \<open>
  Step 2: the branch on \<open>metadata["pdf_raw"]\<close>. In each branch the three (or two)
  \<open>result.get\<close> calls and assignments sit in one \<open>try\<close>; the first \<open>get\<close> raises
  when the parsed answer is not an object, before any assignment.
\<close>

definition step_llm :: "penv \<Rightarrow> dict \<Rightarrow> dict" where
  "step_llm env metadata =
     (if truthy (get_or metadata ''pdf_raw'' JNull) then
        (case get_or metadata ''pdf_raw'' JNull of
           JStr pdf_raw \<Rightarrow>
             (case llm_extract_metadata env pdf_raw (base_prompt env) of
                Inr (JObj result) \<Rightarrow>
                  AList.update ''summary'' (get_or result ''summary'' (JStr []))
                    (AList.update ''keywords'' (get_or result ''keywords'' (JArr []))
                      (AList.update ''affiliations'' (get_or result ''affiliations'' (JArr []))
                         metadata))
              | _ \<Rightarrow> metadata)
         | _ \<Rightarrow> metadata)
      else
        (case get_or metadata ''abstract'' JNull of
           JStr abstract_text \<Rightarrow>
             (case llm_extract_metadata env abstract_text (nometadata_prompt env) of
                Inr (JObj result) \<Rightarrow>
                  AList.update ''summary'' (get_or result ''summary'' (JStr []))
                    (AList.update ''keywords'' (get_or result ''keywords'' (JArr []))
                       metadata)
              | _ \<Rightarrow> metadata)
         | _ \<Rightarrow> metadata))"

text \<open>
  The dictionary literal at the head of \<open>extract_metadata\<close>, given the values of
  \<open>doc.get("title", "")\<close> and \<open>doc.get("abstract", "")\<close>.
\<close>

definition base_fields :: "penv \<Rightarrow> dict \<Rightarrow> string \<Rightarrow> string \<Rightarrow> dict" where
  "base_fields env doc title_raw abstract_raw =
     [(''arxiv_id'', get_or doc ''arxiv_id'' JNull),
      (''title'', JStr (py_strip title_raw)),
      (''abstract'', JStr (py_strip abstract_raw)),
      (''authors'', get_or doc ''authors'' (JArr [])),
      (''categories'', get_or doc ''categories'' (JArr [])),
      (''primary_category'', get_or doc ''primary_category'' (JStr [])),
      (''published_date'', get_or doc ''published'' JNull),
      (''url_pdf'', get_or doc ''url_pdf'' JNull),
      (''crawl_date'', get_or doc ''crawl_date'' JNull),
      (''language'', JStr (detect_language env abstract_raw)),
      (''pdf_raw'', JStr []),
      (''summary'', JNull),
      (''affiliations'', JArr []),
      (''keywords'', JArr []),
      (''locations'', JArr [])]"

definition extract_metadata :: "penv \<Rightarrow> fs \<Rightarrow> dict \<Rightarrow> (error + dict) \<times> fs" where
  "extract_metadata env files doc =
     (case get_str doc ''title'' of
        Inl e \<Rightarrow> (Inl e, files)
      | Inr title_raw \<Rightarrow>
          (case get_str doc ''abstract'' of
             Inl e \<Rightarrow> (Inl e, files)
           | Inr abstract_raw \<Rightarrow>
               let metadata = base_fields env doc title_raw abstract_raw;
                   (metadata1, files1) = step_pdf env files doc metadata
               in (Inr (step_llm env metadata1), files1)))"

text \<open>
  The list comprehension of \<open>process_raw_file\<close>: the records are enriched in order,
  the cache of downloaded files is carried along, and the first exception ends it. A
  record that is not an object has no \<open>get\<close>.
\<close>

fun enrich_all :: "penv \<Rightarrow> fs \<Rightarrow> jval list \<Rightarrow> (error + dict list) \<times> fs" where
  "enrich_all env files [] = (Inr [], files)"
| "enrich_all env files (r # rs) =
     (case r of
        JObj doc \<Rightarrow>
          (case extract_metadata env files doc of
             (Inl e, files1) \<Rightarrow> (Inl e, files1)
           | (Inr m, files1) \<Rightarrow>
               (case enrich_all env files1 rs of
                  (Inl e, files2) \<Rightarrow> (Inl e, files2)
                | (Inr ms, files2) \<Rightarrow> (Inr (m # ms), files2)))
      | _ \<Rightarrow> (Inl AttributeError, files))"

text \<open>
  The write loop of \<open>process_raw_file\<close>: every record is followed by a newline. A
  record whose text cannot be encoded makes \<open>out.write\<close> raise; what was written
  before stays in the file.
\<close>

fun write_records :: "(dict \<Rightarrow> string) \<Rightarrow> dict list \<Rightarrow> string \<Rightarrow> (error + unit) \<times> string" where
  "write_records dmp [] out = (Inr (), out)"
| "write_records dmp (d # ds) out =
     (if has_surrogate (dmp d) then (Inl UnicodeEncodeError, out)
      else write_records dmp ds (out @ dmp d @ [CHR 0x0A]))"

text \<open>
  \<open>process_raw_file\<close>. The path is given by its directory and its name; the output
  goes to \<open>data/processed\<close> under the same name, and the input is moved to
  \<open>data/archive\<close> once the output is written. An exception of the enrichment comes
  before the output file is opened.
\<close>

definition process_raw_file :: "penv \<Rightarrow> fs \<Rightarrow> string \<times> string \<Rightarrow> (error + unit) \<times> fs" where
  "process_raw_file env files filepath =
     (let (dir, name) = filepath;
          src = dir @ ''/'' @ name
      in case files src of
           None \<Rightarrow> (Inl FileNotFoundError, files)
         | Some content \<Rightarrow>
             (case read_records (json_loads env) (file_lines content) of
                Inl e \<Rightarrow> (Inl e, files)
              | Inr records \<Rightarrow>
                  (case enrich_all env files records of
                     (Inl e, files1) \<Rightarrow> (Inl e, files1)
                   | (Inr enriched, files1) \<Rightarrow>
                       let outpath = ''data/processed/'' @ name;
                           (written, text) = write_records (json_dumps env) enriched [];
                           files2 = files1(outpath \<mapsto> text)
                       in case written of
                            Inl e \<Rightarrow> (Inl e, files2)
                          | Inr u \<Rightarrow>
                              (Inr (), (files2(src := None))(''data/archive/'' @ name := files2 src)))))"


section \<open>Index builder (src/index/build\_index.py)\<close>

text \<open>
  The directory \<open>data/processed\<close> is the list of its files, name and content, in the
  order in which \<open>PROCESSED_DIR.glob\<close> yields them. Writing a file replaces the content
  of an existing name in place and appends a new name (\<open>AList.update\<close>).
\<close>

type_synonym pdir = "(string \<times> string) list"

definition is_jsonl :: "string \<Rightarrow> bool" where
  "is_jsonl name = suffix ''.jsonl'' name"

text \<open>\<open>list(PROCESSED_DIR.glob("*.jsonl"))\<close>, as file names.\<close>

definition glob_jsonl :: "pdir \<Rightarrow> string list" where
  "glob_jsonl dir = filter is_jsonl (map fst dir)"

text \<open>The loop over \<open>files\<close> that fills \<open>records\<close>: the first exception ends it.\<close>

fun read_files :: "(string \<Rightarrow> jval option) \<Rightarrow> pdir \<Rightarrow> string list \<Rightarrow> error + jval list" where
  "read_files loads dir [] = Inr []"
| "read_files loads dir (f # fs) =
     (case map_of dir f of
        None \<Rightarrow> Inl FileNotFoundError
      | Some content \<Rightarrow>
          (case read_records loads (file_lines content) of
             Inl e \<Rightarrow> Inl e
           | Inr rs \<Rightarrow>
               (case read_files loads dir fs of
                  Inl e \<Rightarrow> Inl e
                | Inr rest \<Rightarrow> Inr (rs @ rest))))"

text \<open>
  A data frame is its column names and its rows; every row has a cell for every column,
  in the order of the columns. \<open>pd.DataFrame(records)\<close> takes the keys of the records in
  the order of their first appearance as columns and fills a missing cell with a null. The
  model covers records that are objects; for any other record the constructor is taken to
  raise.
\<close>

record dataframe =
  columns :: "string list"
  rows :: "dict list"

fun append_new :: "string list \<Rightarrow> string list \<Rightarrow> string list" where
  "append_new cols [] = cols"
| "append_new cols (k # ks) = append_new (if k \<in> set cols then cols else cols @ [k]) ks"

fun frame_columns :: "string list \<Rightarrow> dict list \<Rightarrow> string list" where
  "frame_columns cols [] = cols"
| "frame_columns cols (r # rs) = frame_columns (append_new cols (map fst r)) rs"

definition select_columns :: "string list \<Rightarrow> dict \<Rightarrow> dict" where
  "select_columns cols r = map (\<lambda>c. (c, get_or r c JNull)) cols"

fun as_dicts :: "jval list \<Rightarrow> error + dict list" where
  "as_dicts [] = Inr []"
| "as_dicts (JObj d # vs) = (case as_dicts vs of Inl e \<Rightarrow> Inl e | Inr ds \<Rightarrow> Inr (d # ds))"
| "as_dicts (v # vs) = Inl TypeError"

definition DataFrame :: "jval list \<Rightarrow> error + dataframe" where
  "DataFrame records =
     (case as_dicts records of
        Inl e \<Rightarrow> Inl e
      | Inr ds \<Rightarrow>
          let cols = frame_columns [] ds
          in Inr \<lparr> columns = cols, rows = map (select_columns cols) ds \<rparr>)"

text \<open>
  \<open>df.drop_duplicates(subset=["arxiv_id"], inplace=True)\<close>: a frame without that column
  raises \<open>KeyError\<close>, a cell that cannot be hashed (a list, an object) raises
  \<open>TypeError\<close>; otherwise the first row of each value of the cell is kept, nulls being one
  value.
\<close>

fun drop_loop :: "jval list \<Rightarrow> dict list \<Rightarrow> dict list" where
  "drop_loop seen [] = []"
| "drop_loop seen (r # rs) =
     (if get_or r ''arxiv_id'' JNull \<in> set seen then drop_loop seen rs
      else r # drop_loop (get_or r ''arxiv_id'' JNull # seen) rs)"

fun unhashable :: "jval \<Rightarrow> bool" where
  "unhashable (JArr xs) = True"
| "unhashable (JObj kvs) = True"
| "unhashable v = False"

definition drop_duplicates :: "dataframe \<Rightarrow> error + dataframe" where
  "drop_duplicates df =
     (if ''arxiv_id'' \<notin> set (columns df) then Inl KeyError
      else if list_ex (\<lambda>r. unhashable (get_or r ''arxiv_id'' JNull)) (rows df) then Inl TypeError
      else Inr (df\<lparr> rows := drop_loop [] (rows df) \<rparr>))"

text \<open>\<open>df.head(n)\<close> is \<open>df[:n]\<close>: a negative \<open>n\<close> leaves out the last \<open>-n\<close> rows.\<close>

definition head :: "int \<Rightarrow> 'a list \<Rightarrow> 'a list" where
  "head n xs = (if 0 \<le> n then take (nat n) xs else take (length xs - nat (- n)) xs)"

text \<open>
  \<open>df.to_json(path, orient="records", lines=True, force_ascii=False)\<close>: one serialised
  row per line, each followed by a newline. The text is built before the file is opened,
  and a row whose text cannot be encoded raises.
\<close>

definition to_json_lines :: "(dict \<Rightarrow> string) \<Rightarrow> dict list \<Rightarrow> string" where
  "to_json_lines dmp rs = concat (map (\<lambda>r. dmp r @ [CHR 0x0A]) rs)"

text \<open>
  \<open>merge_and_deduplicate\<close>, with \<open>limit = None\<close> the default. Every exception comes
  before the snapshot is written, so a failing merge leaves the directory as it was.
\<close>

definition merge_and_deduplicate ::
  "(string \<Rightarrow> jval option) \<Rightarrow> (dict \<Rightarrow> string) \<Rightarrow> pdir \<Rightarrow> int option \<Rightarrow> error + dataframe \<times> pdir" where
  "merge_and_deduplicate loads dmp dir limit =
     (let files = glob_jsonl dir
      in if files = [] then Inl FileNotFoundError
         else case read_files loads dir files of
                Inl e \<Rightarrow> Inl e
              | Inr records \<Rightarrow>
                  (case DataFrame records of
                     Inl e \<Rightarrow> Inl e
                   | Inr df0 \<Rightarrow>
                       (case drop_duplicates df0 of
                          Inl e \<Rightarrow> Inl e
                        | Inr df1 \<Rightarrow>
                            let df = (case limit of
                                        None \<Rightarrow> df1
                                      | Some n \<Rightarrow> if n \<noteq> 0 then df1\<lparr> rows := head n (rows df1) \<rparr>
                                                  else df1)
                            in if list_ex (\<lambda>r. has_surrogate (dmp r)) (rows df)
                               then Inl UnicodeEncodeError
                               else
                                 let dir1 = AList.update ''merged.jsonl''
                                              (to_json_lines dmp (rows df)) dir;
                                     dir2 = filter (\<lambda>(name, content).
                                              \<not> (name \<in> set files \<and> name \<noteq> ''merged.jsonl'')) dir1
                                 in Inr (df, dir2))))"

text \<open>
  The three artefacts under \<open>index/faiss\<close>: the embedding matrix, the metadata table
  and the index, each absent until it is written. A vector is a value of the type
  \<open>'v\<close>.
\<close>

record 'v index_dir =
  embeddings_npy :: "'v list option"
  metadata_jsonl :: "string option"
  faiss_index :: "'v list option"

definition metadata_fields :: "string list" where
  "metadata_fields =
     [''arxiv_id'', ''title'', ''abstract'', ''summary'', ''authors'', ''categories'',
      ''affiliations'', ''keywords'', ''language'', ''published_date'', ''url_pdf'']"

text \<open>\<open>.fillna("")\<close> on a cell.\<close>

definition fillna :: "jval \<Rightarrow> jval" where
  "fillna v = (case v of JNull \<Rightarrow> JStr [] | _ \<Rightarrow> v)"

text \<open>
  \<open>model.encode(texts, normalize_embeddings=True)\<close>: row \<open>i\<close> of the result is the
  embedding of sentence \<open>i\<close>, given by the encoder of the model; a text that is not a
  string is taken to raise.
\<close>

fun encode :: "(string \<Rightarrow> 'v) \<Rightarrow> jval list \<Rightarrow> error + 'v list" where
  "encode enc [] = Inr []"
| "encode enc (JStr s # ts) = (case encode enc ts of Inl e \<Rightarrow> Inl e | Inr vs \<Rightarrow> Inr (enc s # vs))"
| "encode enc (t # ts) = Inl TypeError"

text \<open>
  \<open>build_index\<close>. \<open>load_model\<close> is \<open>SentenceTransformer(model_name)\<close>, \<open>None\<close>
  when it raises. The artefacts are written one after the other, so a build that raises
  half-way leaves the earlier ones written; an empty matrix has no second dimension.
\<close>

definition build_index ::
  "(string \<Rightarrow> (string \<Rightarrow> 'v) option) \<Rightarrow> (string \<Rightarrow> jval option) \<Rightarrow> (dict \<Rightarrow> string) \<Rightarrow>
   pdir \<Rightarrow> 'v index_dir \<Rightarrow> string \<Rightarrow> int option \<Rightarrow> (error + unit) \<times> pdir \<times> 'v index_dir" where
  "build_index load_model loads dmp dir idx model_name limit =
     (case merge_and_deduplicate loads dmp dir limit of
        Inl e \<Rightarrow> (Inl e, dir, idx)
      | Inr (df, dir1) \<Rightarrow>
          if ''abstract'' \<notin> set (columns df) then (Inl KeyError, dir1, idx)
          else
            let texts = map (\<lambda>r. fillna (get_or r ''abstract'' JNull)) (rows df)
            in case load_model model_name of
                 None \<Rightarrow> (Inl ServiceError, dir1, idx)
               | Some enc \<Rightarrow>
                   (case encode enc texts of
                      Inl e \<Rightarrow> (Inl e, dir1, idx)
                    | Inr embeddings \<Rightarrow>
                        let idx1 = idx\<lparr> embeddings_npy := Some embeddings \<rparr>
                        in if \<not> set metadata_fields \<subseteq> set (columns df)
                           then (Inl KeyError, dir1, idx1)
                           else
                             let df_meta = map (select_columns metadata_fields) (rows df)
                             in if list_ex (\<lambda>r. has_surrogate (dmp r)) df_meta
                                then (Inl UnicodeEncodeError, dir1, idx1)
                                else
                                  let idx2 = idx1\<lparr> metadata_jsonl :=
                                                      Some (to_json_lines dmp df_meta) \<rparr>
                                  in if embeddings = [] then (Inl IndexError, dir1, idx2)
                                     else (Inr (), dir1, idx2\<lparr> faiss_index := Some embeddings \<rparr>)))"

section \<open>Example inputs\<close>

text \<open>
  Concrete feeds and records on which the theorems below are instantiated: a feed entry
  with a given identifier and title, a feed service that answers from a fixed list of
  pages (and with an empty page afterwards), and serialisers that print the identifier
  (and the title) of a record between braces, a newline written as \<open>\n\<close>, as
  \<open>json.dumps\<close> never emits a raw newline.
\<close>

definition mk_entry :: "string option \<Rightarrow> string option \<Rightarrow> entry" where
  "mk_entry i t =
     \<lparr> e_id = i, e_title = t, e_summary = None, e_authors = [], e_tags = [],
       e_primary_term = None, e_links = [], e_published = None, e_updated = None,
       e_comment = None, e_journal_ref = None, e_doi = None \<rparr>"

definition feed_pages :: "response list \<Rightarrow> feed" where
  "feed_pages pages k q start ask = (if k < length pages then pages ! k else Resp 200 [])"

definition escape_char :: "char \<Rightarrow> string" where
  "escape_char c = (if c = CHR 0x0A then [CHR 0x5C, CHR ''n''] else [c])"

definition dumps_brief :: "rawdoc \<Rightarrow> string" where
  "dumps_brief d = ''{'' @ concat (map escape_char (arxiv_id d @ '' '' @ title d)) @ ''}''"

definition dumps_dict :: "dict \<Rightarrow> string" where
  "dumps_dict d =
     ''{'' @ concat (map escape_char
               (case get_or d ''arxiv_id'' JNull of JStr s \<Rightarrow> s | _ \<Rightarrow> ''null'')) @ ''}''"

text \<open>
  An enrichment environment in which every service fails, and one in which the download
  is refused while the completion service answers and its answer parses to an object
  with a summary and keywords; in the latter, the staging line \<open>{doc}\<close> parses to
  the example document and the line \<open>{untitled}\<close> to a document whose title is null.
\<close>

definition doc_example :: dict where
  "doc_example =
     [(''arxiv_id'', JStr ''2401.00001''), (''title'', JStr '' A title ''),
      (''abstract'', JStr ''An abstract''),
      (''url_pdf'', JStr ''http://arxiv.org/pdf/2401.00001'')]"

definition doc_untitled :: dict where
  "doc_untitled =
     [(''arxiv_id'', JStr ''2401.00002''), (''title'', JNull),
      (''abstract'', JStr ''An abstract''),
      (''url_pdf'', JStr ''http://arxiv.org/pdf/2401.00002'')]"

definition env_offline :: penv where
  "env_offline =
     \<lparr> lang_detect = (\<lambda>t. None),
       cache_name = (\<lambda>u. ''cached''),
       http_get = (\<lambda>u. Refused),
       read_pdf = (\<lambda>c. Unreadable),
       chat = (\<lambda>p. None),
       json_loads = (\<lambda>s. None),
       json_dumps = dumps_dict,
       base_prompt = ''Text: <TEXT>'',
       nometadata_prompt = ''Abstract: <TEXT>'' \<rparr>"

definition env_fallback :: penv where
  "env_fallback =
     env_offline
       \<lparr> chat := (\<lambda>p. Some ''{summary}''),
         json_loads := (\<lambda>s. if py_strip s = ''{summary}''
                              then Some (JObj [(''summary'', JStr ''short''),
                                               (''keywords'', JArr [JStr ''k''])])
                              else if py_strip s = ''{doc}'' then Some (JObj doc_example)
                              else if py_strip s = ''{untitled}'' then Some (JObj doc_untitled)
                              else None) \<rparr>"

text \<open>The keys of the dictionary literal of \<open>extract_metadata\<close>, in its order.\<close>

definition record_keys :: "string list" where
  "record_keys =
     [''arxiv_id'', ''title'', ''abstract'', ''authors'', ''categories'', ''primary_category'',
      ''published_date'', ''url_pdf'', ''crawl_date'', ''language'', ''pdf_raw'', ''summary'',
      ''affiliations'', ''keywords'', ''locations'']"

section \<open>Properties of the harvester\<close>

lemmas strip_defs = py_strip_def is_space_def is_space2_def is_space3_def

lemma dedupe_loop_acc: "dedupe_loop seen acc ds = acc @ dedupe_loop seen [] ds"
proof (induction ds arbitrary: seen acc)
  case Nil
  show ?case by simp
next
  case (Cons d ds)
  show ?case
    using Cons.IH [of "insert (arxiv_id d) seen" "acc @ [d]"]
          Cons.IH [of "insert (arxiv_id d) seen" "[d]"]
          Cons.IH [of seen acc]
    by simp
qed

lemma dedupe_loop_Cons:
  "dedupe_loop seen [] (d # ds) =
     (if arxiv_id d \<noteq> [] \<and> arxiv_id d \<notin> seen
      then d # dedupe_loop (insert (arxiv_id d) seen) [] ds
      else dedupe_loop seen [] ds)"
  using dedupe_loop_acc [of "insert (arxiv_id d) seen" "[d]" ds] by simp

lemma dedupe_loop_sound:
  "x \<in> set (dedupe_loop seen [] ds) \<Longrightarrow> x \<in> set ds \<and> arxiv_id x \<noteq> [] \<and> arxiv_id x \<notin> seen"
  by (induction ds arbitrary: seen)
     (auto simp: dedupe_loop_Cons simp del: dedupe_loop.simps(2) split: if_splits)




declare fetch_loop.simps [simp del]

lemma fetch_loop_done:
  "\<not> fetched < m \<Longrightarrow> fetch_loop srv q m k fetched res = Inr res"
  by (subst fetch_loop.simps) simp

lemma fetch_loop_raise:
  "fetched < m \<Longrightarrow> srv k q fetched (min 2000 (m - fetched)) = Raises \<Longrightarrow>
   fetch_loop srv q m k fetched res = Inl RequestException"
  by (subst fetch_loop.simps) simp

lemma fetch_loop_stop:
  "fetched < m \<Longrightarrow> srv k q fetched (min 2000 (m - fetched)) = Resp status es \<Longrightarrow>
   status \<noteq> 200 \<or> es = [] \<Longrightarrow>
   fetch_loop srv q m k fetched res = Inr res"
  by (subst fetch_loop.simps) auto

lemma fetch_loop_more:
  "fetched < m \<Longrightarrow> srv k q fetched (min 2000 (m - fetched)) = Resp 200 es \<Longrightarrow>
   es \<noteq> [] \<Longrightarrow>
   fetch_loop srv q m k fetched res =
     fetch_loop srv q m (Suc k) (fetched + int (length es)) (res @ es)"
  by (subst fetch_loop.simps) simp

lemma fetch_loop_total:
  "\<forall>k q s a. srv k q s a \<noteq> Raises \<Longrightarrow> \<exists>r. fetch_loop srv q m k f res = Inr r"
proof (induction srv q m k f res rule: fetch_loop.induct)
  case (1 srv query max_results k fetched results)
  show ?case
  proof (cases "fetched < max_results")
    case False
    then show ?thesis by (simp add: fetch_loop_done)
  next
    case True
    obtain status entries where r: "srv k query fetched (min 2000 (max_results - fetched)) = Resp status entries"
      using "1.prems" by (cases "srv k query fetched (min 2000 (max_results - fetched))") auto
    show ?thesis
    proof (cases "status \<noteq> 200 \<or> entries = []")
      case True
      with \<open>fetched < max_results\<close> r show ?thesis by (simp add: fetch_loop_stop)
    next
      case False
      with "1.IH" [OF \<open>fetched < max_results\<close> r] "1.prems" \<open>fetched < max_results\<close> r
      show ?thesis by (simp add: fetch_loop_more)
    qed
  qed
qed

lemma fetch_loop_prefix:
  "fetch_loop srv q m k f res = Inr r \<Longrightarrow> prefix res r"
proof (induction srv q m k f res rule: fetch_loop.induct)
  case (1 srv query max_results k fetched results)
  show ?case
  proof (cases "fetched < max_results")
    case False
    with "1.prems" show ?thesis by (simp add: fetch_loop_done)
  next
    case True
    show ?thesis
    proof (cases "srv k query fetched (min 2000 (max_results - fetched))")
      case Raises
      with True "1.prems" show ?thesis by (simp add: fetch_loop_raise)
    next
      case (Resp status entries)
      show ?thesis
      proof (cases "status \<noteq> 200 \<or> entries = []")
        case True
        with \<open>fetched < max_results\<close> Resp "1.prems" show ?thesis
          by (simp add: fetch_loop_stop)
      next
        case False
        with "1.prems" \<open>fetched < max_results\<close> Resp
        have "fetch_loop srv query max_results (Suc k) (fetched + int (length entries)) (results @ entries) = Inr r"
          by (simp add: fetch_loop_more)
        with "1.IH" [OF \<open>fetched < max_results\<close> Resp] False
        have "prefix (results @ entries) r" by simp
        then show ?thesis by (meson append_prefixD)
      qed
    qed
  qed
qed

lemma write_loop_eq:
  "i + length ds = n \<Longrightarrow> write_loop dumps n i ds f = f @ join [CHR 0x0A] (map dumps ds)"
proof (induction ds arbitrary: i f)
  case Nil
  show ?case by simp
next
  case (Cons d ds)
  show ?case
  proof (cases ds)
    case Nil
    with Cons.prems show ?thesis by simp
  next
    case (Cons d' ds')
    from Cons.prems Cons have lt: "int i < int n - 1" by simp
    from Cons.prems have "Suc i + length ds = n" by simp
    then have "write_loop dumps n (Suc i) ds ((f @ dumps d) @ [CHR 0x0A]) =
               ((f @ dumps d) @ [CHR 0x0A]) @ join [CHR 0x0A] (map dumps ds)"
      by (rule Cons.IH)
    with lt Cons show ?thesis by simp
  qed
qed

lemma crawl_result:
  assumes "crawl_arxiv_to_jsonl srv dumps abspath timestamp files cs max_results query = Inr ((n, p), files')"
  shows "\<exists>entries. fetch_results srv (build_query cs query) max_results = Inr entries \<and>
           n = length (dedupe_loop {} [] (map (\<lambda>e. entry_to_rawdoc e (Some (take 8 timestamp))) entries)) \<and>
           p = abspath (outpath timestamp cs) \<and>
           files' = files(outpath timestamp cs \<mapsto>
             join [CHR 0x0A] (map dumps (dedupe_loop {} [] (map (\<lambda>e. entry_to_rawdoc e (Some (take 8 timestamp))) entries))))"
  using assms
  by (auto simp: crawl_arxiv_to_jsonl_def Let_def write_jsonl_def write_loop_eq split: sum.splits)

lemma received_0: "received pages 0 = 0"
  by (simp add: received_def)

lemma received_Suc: "received (p # pages) (Suc i) = int (length p) + received pages i"
  by (simp add: received_def)

lemma received_all: "received pages (length pages) = int (length (concat pages))"
  by (simp add: received_def)

lemma fetch_loop_run:
  "\<exists>pages.
     (\<forall>i < length pages.
        fetched + received pages i < m \<and>
        srv (k + i) q (fetched + received pages i) (min 2000 (m - (fetched + received pages i)))
          = Resp 200 (pages ! i) \<and>
        pages ! i \<noteq> []) \<and>
     ((fetched + received pages (length pages) < m \<and>
       srv (k + length pages) q (fetched + received pages (length pages))
           (min 2000 (m - (fetched + received pages (length pages)))) = Raises \<and>
       fetch_loop srv q m k fetched res = Inl RequestException)
      \<or> ((m \<le> fetched + received pages (length pages) \<or>
           (\<exists>status es.
              srv (k + length pages) q (fetched + received pages (length pages))
                  (min 2000 (m - (fetched + received pages (length pages)))) = Resp status es \<and>
              (status \<noteq> 200 \<or> es = []))) \<and>
          fetch_loop srv q m k fetched res = Inr (res @ concat pages)))"
proof (induction srv q m k fetched res rule: fetch_loop.induct)
  case (1 srv q m k fetched res)
  show ?case
  proof (cases "fetched < m")
    case False
    then show ?thesis
      by (intro exI [of _ "[]"]) (simp add: received_0 fetch_loop_done)
  next
    case lt: True
    show ?thesis
    proof (cases "srv k q fetched (min 2000 (m - fetched))")
      case Raises
      with lt show ?thesis
        by (intro exI [of _ "[]"]) (simp add: received_0 fetch_loop_raise)
    next
      case (Resp status es)
      show ?thesis
      proof (cases "status \<noteq> 200 \<or> es = []")
        case True
        with lt Resp have "fetch_loop srv q m k fetched res = Inr res"
          by (simp add: fetch_loop_stop)
        with lt Resp True show ?thesis
          by (intro exI [of _ "[]"]) (auto simp: received_0)
      next
        case False
        then have st: "status = 200" and ne: "es \<noteq> []" by auto
        from lt Resp st ne have step:
          "fetch_loop srv q m k fetched res =
             fetch_loop srv q m (Suc k) (fetched + int (length es)) (res @ es)"
          by (simp add: fetch_loop_more)
        from "1.IH" [OF lt Resp] False obtain pages where
          pg: "\<forall>i < length pages.
                 fetched + int (length es) + received pages i < m \<and>
                 srv (Suc k + i) q (fetched + int (length es) + received pages i)
                     (min 2000 (m - (fetched + int (length es) + received pages i)))
                   = Resp 200 (pages ! i) \<and>
                 pages ! i \<noteq> []"
          and out: "(fetched + int (length es) + received pages (length pages) < m \<and>
                     srv (Suc k + length pages) q (fetched + int (length es) + received pages (length pages))
                         (min 2000 (m - (fetched + int (length es) + received pages (length pages)))) = Raises \<and>
                     fetch_loop srv q m (Suc k) (fetched + int (length es)) (res @ es) = Inl RequestException)
                  \<or> ((m \<le> fetched + int (length es) + received pages (length pages) \<or>
                       (\<exists>status es'.
                          srv (Suc k + length pages) q (fetched + int (length es) + received pages (length pages))
                              (min 2000 (m - (fetched + int (length es) + received pages (length pages))))
                            = Resp status es' \<and>
                          (status \<noteq> 200 \<or> es' = []))) \<and>
                      fetch_loop srv q m (Suc k) (fetched + int (length es)) (res @ es)
                        = Inr ((res @ es) @ concat pages))"
          by auto
        have a: "\<And>x. fetched + (int (length es) + x) = fetched + int (length es) + x" by simp
        have pg': "\<forall>i < length (es # pages).
                 fetched + received (es # pages) i < m \<and>
                 srv (k + i) q (fetched + received (es # pages) i)
                     (min 2000 (m - (fetched + received (es # pages) i)))
                   = Resp 200 ((es # pages) ! i) \<and>
                 (es # pages) ! i \<noteq> []"
        proof (intro allI impI)
          fix i assume i: "i < length (es # pages)"
          show "fetched + received (es # pages) i < m \<and>
                 srv (k + i) q (fetched + received (es # pages) i)
                     (min 2000 (m - (fetched + received (es # pages) i)))
                   = Resp 200 ((es # pages) ! i) \<and>
                 (es # pages) ! i \<noteq> []"
          proof (cases i)
            case 0
            with lt Resp st ne show ?thesis by (simp add: received_0)
          next
            case (Suc j)
            with i have "j < length pages" by simp
            with pg Suc show ?thesis by (simp add: received_Suc a)
          qed
        qed
        from out step have out':
          "(fetched + received (es # pages) (length (es # pages)) < m \<and>
            srv (k + length (es # pages)) q (fetched + received (es # pages) (length (es # pages)))
                (min 2000 (m - (fetched + received (es # pages) (length (es # pages))))) = Raises \<and>
            fetch_loop srv q m k fetched res = Inl RequestException)
           \<or> ((m \<le> fetched + received (es # pages) (length (es # pages)) \<or>
                (\<exists>status es'.
                   srv (k + length (es # pages)) q (fetched + received (es # pages) (length (es # pages)))
                       (min 2000 (m - (fetched + received (es # pages) (length (es # pages)))))
                     = Resp status es' \<and>
                   (status \<noteq> 200 \<or> es' = []))) \<and>
               fetch_loop srv q m k fetched res = Inr (res @ concat (es # pages)))"
          by (simp add: received_Suc a)
        from pg' out' show ?thesis by (intro exI [of _ "es # pages"]) (rule conjI)
      qed
    qed
  qed
qed

section \<open>Properties of the enricher\<close>

lemma update_keys_present:
  "k \<in> set (map fst al) \<Longrightarrow> map fst (AList.update k v al) = map fst al"
  by (simp add: update_keys)

lemma step_pdf_keys:
  "map fst m = record_keys \<Longrightarrow> map fst (fst (step_pdf env files doc m)) = record_keys"
  by (auto simp: step_pdf_def Let_def update_keys record_keys_def
           split: jval.splits prod.splits sum.splits)

lemma step_pdf_other:
  "k \<noteq> ''pdf_raw'' \<Longrightarrow> map_of (fst (step_pdf env files doc m)) k = map_of m k"
  by (auto simp: step_pdf_def Let_def update_conv'
           split: jval.splits prod.splits sum.splits)

lemma step_llm_keys:
  "map fst m = record_keys \<Longrightarrow> map fst (step_llm env m) = record_keys"
  by (auto simp: step_llm_def update_keys record_keys_def
           split: jval.splits sum.splits)

lemma step_llm_other:
  "k \<noteq> ''summary'' \<Longrightarrow> k \<noteq> ''keywords'' \<Longrightarrow> k \<noteq> ''affiliations'' \<Longrightarrow>
   map_of (step_llm env m) k = map_of m k"
  by (auto simp: step_llm_def update_conv' split: jval.splits sum.splits)

lemma extract_metadata_Inr:
  assumes "extract_metadata env files doc = (Inr m, files')"
  shows "\<exists>t a. get_str doc ''title'' = Inr t \<and> get_str doc ''abstract'' = Inr a \<and>
           m = step_llm env (fst (step_pdf env files doc (base_fields env doc t a))) \<and>
           files' = snd (step_pdf env files doc (base_fields env doc t a))"
  using assms
  by (auto simp: extract_metadata_def Let_def split: sum.splits prod.splits)

lemma base_fields_keys: "map fst (base_fields env doc t a) = record_keys"
  by (simp add: base_fields_def record_keys_def)

lemma first_page_text_on_failure:
  assumes "(files (cached_pdf_path env u) = None \<and> (\<forall>b. http_get env u \<noteq> Body b))
         \<or> (\<exists>c. read_pdf env c = Unreadable \<and>
                (files (cached_pdf_path env u) = Some c
                 \<or> (files (cached_pdf_path env u) = None \<and> http_get env u = Body c)))"
  shows "fst (extract_first_page_text env files u False) =
           (if u = [] \<or> \<not> prefix ''http'' u then Inl ValueError else Inr [])"
  using assms
  by (cases "http_get env u")
     (auto simp: extract_first_page_text_def download_pdf_def
                 extract_first_page_text_from_pdf_def Let_def)

lemma step_pdf_on_failure:
  assumes "fst (extract_first_page_text env files u False) = Inr [] \<or>
           (\<exists>e. fst (extract_first_page_text env files u False) = Inl e)"
      and "get_or doc ''url_pdf'' JNull = JStr u"
      and "map_of m ''pdf_raw'' = Some (JStr [])"
  shows "map_of (fst (step_pdf env files doc m)) ''pdf_raw'' = Some (JStr [])"
  using assms
  by (cases "extract_first_page_text env files u False")
     (auto simp: step_pdf_def Let_def update_conv' split: sum.splits)

lemma step_llm_fallback:
  assumes "map_of m ''pdf_raw'' = Some (JStr [])"
      and "map_of m ''abstract'' = Some (JStr a)"
      and "map_of m ''summary'' = Some JNull"
  shows "map_of (step_llm env m) ''summary'' = Some JNull \<or>
         (\<exists>result. llm_extract_metadata env a (nometadata_prompt env) = Inr (JObj result) \<and>
            map_of (step_llm env m) ''summary'' = Some (get_or result ''summary'' (JStr [])))"
  using assms
  by (auto simp: step_llm_def get_or_def update_conv' split: sum.splits jval.splits)

lemma extract_metadata_total:
  assumes "get_str doc ''title'' = Inr t" and "get_str doc ''abstract'' = Inr a"
  shows "extract_metadata env files doc =
           (Inr (step_llm env (fst (step_pdf env files doc (base_fields env doc t a)))),
            snd (step_pdf env files doc (base_fields env doc t a)))"
  using assms by (simp add: extract_metadata_def Let_def split: prod.splits)

lemma extract_metadata_arxiv_id:
  assumes "extract_metadata env files doc = (Inr m, files')"
  shows "map_of m ''arxiv_id'' = Some (get_or doc ''arxiv_id'' JNull)"
proof -
  from extract_metadata_Inr [OF assms] obtain t a where
    m: "m = step_llm env (fst (step_pdf env files doc (base_fields env doc t a)))"
    by blast
  show ?thesis
    unfolding m by (simp add: step_llm_other step_pdf_other) (simp add: base_fields_def)
qed

lemma enrich_all_total:
  assumes "\<forall>d \<in> set docs. (\<exists>t. get_str d ''title'' = Inr t) \<and> (\<exists>a. get_str d ''abstract'' = Inr a)"
  shows "\<exists>ms files'. enrich_all env files (map JObj docs) = (Inr ms, files') \<and>
           map (\<lambda>m. map_of m ''arxiv_id'') ms = map (\<lambda>d. Some (get_or d ''arxiv_id'' JNull)) docs"
  using assms
proof (induction docs arbitrary: files)
  case Nil
  show ?case by simp
next
  case (Cons d docs)
  from Cons.prems obtain t a where
    t: "get_str d ''title'' = Inr t" and a: "get_str d ''abstract'' = Inr a" by auto
  define m where "m = step_llm env (fst (step_pdf env files d (base_fields env d t a)))"
  define files1 where "files1 = snd (step_pdf env files d (base_fields env d t a))"
  have e: "extract_metadata env files d = (Inr m, files1)"
    unfolding m_def files1_def by (rule extract_metadata_total [OF t a])
  from Cons.prems have "\<forall>d \<in> set docs. (\<exists>t. get_str d ''title'' = Inr t) \<and> (\<exists>a. get_str d ''abstract'' = Inr a)"
    by simp
  from Cons.IH [OF this, of files1] obtain ms files2 where
    r: "enrich_all env files1 (map JObj docs) = (Inr ms, files2)"
    and i: "map (\<lambda>m. map_of m ''arxiv_id'') ms = map (\<lambda>d. Some (get_or d ''arxiv_id'' JNull)) docs"
    by blast
  from e r i extract_metadata_arxiv_id [OF e] show ?case by simp
qed

lemma write_records_eq:
  "write_records dmp ds out =
     ((if list_ex (\<lambda>d. has_surrogate (dmp d)) ds then Inl UnicodeEncodeError else Inr ()),
      out @ concat (map (\<lambda>d. dmp d @ [CHR 0x0A])
                     (takeWhile (\<lambda>d. \<not> has_surrogate (dmp d)) ds)))"
  by (induction ds arbitrary: out) simp_all

lemma takeWhile_all: "\<forall>x \<in> set xs. P x \<Longrightarrow> takeWhile P xs = xs"
  by (induction xs) simp_all

lemma write_records_ok:
  "\<not> list_ex (\<lambda>d. has_surrogate (dmp d)) ds \<Longrightarrow>
   write_records dmp ds out = (Inr (), out @ concat (map (\<lambda>d. dmp d @ [CHR 0x0A]) ds))"
  by (simp add: write_records_eq list_ex_iff takeWhile_all)

lemma write_records_Inr:
  "write_records dmp ds out = (Inr u, text) \<Longrightarrow>
   \<not> list_ex (\<lambda>d. has_surrogate (dmp d)) ds \<and>
   text = out @ concat (map (\<lambda>d. dmp d @ [CHR 0x0A]) ds)"
  by (auto simp: write_records_eq list_ex_iff takeWhile_all split: if_splits)

lemma process_raw_file_result:
  assumes "files (''data/raw/'' @ name) = Some content"
      and "read_records (json_loads env) (file_lines content) = Inr records"
      and "enrich_all env files records = (Inr ms, files1)"
  shows "process_raw_file env files (''data/raw'', name) =
           (if list_ex (\<lambda>m. has_surrogate (json_dumps env m)) ms
            then (Inl UnicodeEncodeError,
                  files1(''data/processed/'' @ name \<mapsto>
                    concat (map (\<lambda>m. json_dumps env m @ [CHR 0x0A])
                              (takeWhile (\<lambda>m. \<not> has_surrogate (json_dumps env m)) ms))))
            else (Inr (),
                  (files1(''data/processed/'' @ name \<mapsto>
                     concat (map (\<lambda>m. json_dumps env m @ [CHR 0x0A]) ms),
                   ''data/raw/'' @ name := None))
                   (''data/archive/'' @ name := files1 (''data/raw/'' @ name))))"
  using assms
  by (simp add: process_raw_file_def Let_def write_records_eq list_ex_iff takeWhile_all)

lemma escape_no_newline: "CHR 0x0A \<notin> set (concat (map escape_char s))"
  by (induction s) (auto simp: escape_char_def)

lemma dumps_brief_line: "CHR 0x0A \<notin> set (dumps_brief d) \<and> dumps_brief d \<noteq> []"
  using escape_no_newline [of "arxiv_id d @ '' '' @ title d"] by (simp add: dumps_brief_def)

lemma dumps_dict_line: "CHR 0x0A \<notin> set (dumps_dict d) \<and> dumps_dict d \<noteq> []"
  using escape_no_newline [of "case get_or d ''arxiv_id'' JNull of JStr s \<Rightarrow> s | _ \<Rightarrow> ''null''"]
  by (simp add: dumps_dict_def)

lemma lines_loop_line:
  "CHR 0x0A \<notin> set l \<Longrightarrow>
   lines_loop cur (l @ CHR 0x0A # rest) = (cur @ l @ [CHR 0x0A]) # lines_loop [] rest"
  by (induction l arbitrary: cur) auto

lemma lines_loop_last:
  "CHR 0x0A \<notin> set l \<Longrightarrow> lines_loop cur l = (if cur @ l = [] then [] else [cur @ l])"
  by (induction l arbitrary: cur) auto

lemma ndjson_lines_records:
  "\<forall>d \<in> set ds. CHR 0x0A \<notin> set (dmp d) \<Longrightarrow>
   ndjson_lines (concat (map (\<lambda>d. dmp d @ [CHR 0x0A]) ds)) = map (\<lambda>d. dmp d @ [CHR 0x0A]) ds"
proof (induction ds)
  case Nil
  show ?case by (simp add: ndjson_lines_def)
next
  case (Cons d ds)
  then have "CHR 0x0A \<notin> set (dmp d)" by simp
  from lines_loop_line [OF this, of "[]"] Cons show ?case
    by (simp add: ndjson_lines_def)
qed

lemma ndjson_lines_join:
  "ds \<noteq> [] \<Longrightarrow> \<forall>d \<in> set ds. CHR 0x0A \<notin> set (dmp d) \<and> dmp d \<noteq> [] \<Longrightarrow>
   ndjson_lines (join [CHR 0x0A] (map dmp ds)) =
     map (\<lambda>d. dmp d @ [CHR 0x0A]) (butlast ds) @ [dmp (last ds)]"
proof (induction ds rule: induct_list012)
  case 1
  then show ?case by simp
next
  case (2 d)
  then show ?case by (simp add: ndjson_lines_def lines_loop_last)
next
  case (3 d d' ds)
  then have n: "CHR 0x0A \<notin> set (dmp d)" by simp
  from 3 have "ndjson_lines (join [CHR 0x0A] (map dmp (d' # ds))) =
     map (\<lambda>d. dmp d @ [CHR 0x0A]) (butlast (d' # ds)) @ [dmp (last (d' # ds))]"
    by simp
  with lines_loop_line [OF n, of "[]"] show ?case
    by (simp add: ndjson_lines_def)
qed

lemma join_nonempty:
  "ds \<noteq> [] \<Longrightarrow> \<forall>d \<in> set ds. dmp d \<noteq> [] \<Longrightarrow> join sep (map dmp ds) \<noteq> []"
  by (induction ds rule: induct_list012) auto

lemma last_join:
  "ds \<noteq> [] \<Longrightarrow> \<forall>d \<in> set ds. dmp d \<noteq> [] \<Longrightarrow>
   last (join sep (map dmp ds)) = last (dmp (last ds))"
proof (induction ds rule: induct_list012)
  case 1
  then show ?case by simp
next
  case (2 d)
  then show ?case by simp
next
  case (3 d d' ds)
  then have "join sep (map dmp (d' # ds)) \<noteq> []"
    by (intro join_nonempty) auto
  with 3 show ?case by simp
qed

lemma process_raw_file_Inr:
  assumes "process_raw_file env files (''data/raw'', name) = (Inr (), files')"
  shows "\<exists>content records ms files1.
           files (''data/raw/'' @ name) = Some content \<and>
           read_records (json_loads env) (file_lines content) = Inr records \<and>
           enrich_all env files records = (Inr ms, files1) \<and>
           \<not> list_ex (\<lambda>m. has_surrogate (json_dumps env m)) ms \<and>
           files' (''data/processed/'' @ name) =
             Some (concat (map (\<lambda>m. json_dumps env m @ [CHR 0x0A]) ms))"
  using assms
  by (auto simp: process_raw_file_def Let_def list_ex_iff
           dest!: write_records_Inr
           split: option.splits sum.splits prod.splits)

lemma universal_newlines_id: "CHR 0x0D \<notin> set s \<Longrightarrow> universal_newlines s = s"
  by (induction s rule: universal_newlines.induct) auto

lemma file_lines_ndjson: "CHR 0x0D \<notin> set s \<Longrightarrow> file_lines s = ndjson_lines s"
  by (simp add: file_lines_def universal_newlines_id)

lemma crawl_example:
  "crawl_arxiv_to_jsonl
      (feed_pages [Resp 200 [mk_entry (Some ''http://arxiv.org/abs/2401.00001'') (Some ''one''),
                             mk_entry (Some ''http://arxiv.org/abs/2401.00002'') (Some ''two'')]])
      dumps_brief (\<lambda>p. p) ''20240101_120000'' Map.empty [''cs.AI''] 2 None
    = Inr ((2, ''data/raw/20240101_120000_cs_AI.jsonl''),
           [''data/raw/20240101_120000_cs_AI.jsonl'' \<mapsto>
              ''{2401.00001 one}'' @ [CHR 0x0A] @ ''{2401.00002 two}''])"
  by (simp add: crawl_arxiv_to_jsonl_def fetch_results_def fetch_loop.simps feed_pages_def
        mk_entry_def entry_to_rawdoc_def rsplit_last_def or_empty_def strip_defs
        dumps_brief_def escape_char_def outpath_def cats_name_def build_query_def write_jsonl_def Let_def)

lemma process_example:
  "process_raw_file env_fallback [''data/raw/a.jsonl'' \<mapsto> ''{doc}'' @ [CHR 0x0A]] (''data/raw'', ''a.jsonl'')
     = (Inr (), [''data/processed/a.jsonl'' \<mapsto> ''{2401.00001}'' @ [CHR 0x0A],
                 ''data/archive/a.jsonl'' \<mapsto> ''{doc}'' @ [CHR 0x0A]])"
  by (simp add: process_raw_file_def file_lines_def ndjson_lines_def Let_def env_fallback_def env_offline_def
        strip_defs doc_example_def extract_metadata_def base_fields_def
        step_pdf_def step_llm_def get_str_def get_or_def extract_first_page_text_def
        download_pdf_def cached_pdf_path_def llm_extract_metadata_def detect_language_def
        py_replace_def dumps_dict_def escape_char_def fun_eq_iff)

lemma extract_metadata_on_failure:
  assumes t: "get_str doc ''title'' = Inr t"
      and a: "get_str doc ''abstract'' = Inr a"
      and url: "map_of doc ''url_pdf'' = Some (JStr u)"
      and fail: "(files (cached_pdf_path env u) = None \<and> (\<forall>b. http_get env u \<noteq> Body b))
         \<or> (\<exists>c. read_pdf env c = Unreadable \<and>
                (files (cached_pdf_path env u) = Some c
                 \<or> (files (cached_pdf_path env u) = None \<and> http_get env u = Body c)))"
      and e: "extract_metadata env files doc = (Inr m, files1)"
  shows "map_of m ''arxiv_id'' = Some (get_or doc ''arxiv_id'' JNull) \<and>
         map_of m ''pdf_raw'' = Some (JStr []) \<and>
         (map_of m ''summary'' = Some JNull \<or>
          (\<exists>result. llm_extract_metadata env (py_strip a) (nometadata_prompt env) = Inr (JObj result) \<and>
             map_of m ''summary'' = Some (get_or result ''summary'' (JStr [])))) \<and>
         (u \<noteq> [] \<and> prefix ''http'' u \<longrightarrow>
            fst (extract_first_page_text env files u False) = Inr [])"
proof -
  define m0 where "m0 = base_fields env doc t a"
  define m1 where "m1 = fst (step_pdf env files doc m0)"
  from extract_metadata_total [OF t a, of env files] e
  have m: "m = step_llm env m1" by (simp add: m1_def m0_def)
  have x: "fst (extract_first_page_text env files u False) =
             (if u = [] \<or> \<not> prefix ''http'' u then Inl ValueError else Inr [])"
    using fail by (rule first_page_text_on_failure [where files = files and env = env and u = u])
  have g: "get_or doc ''url_pdf'' JNull = JStr u"
    using url by (simp add: get_or_def)
  have p0: "map_of m0 ''pdf_raw'' = Some (JStr [])"
    by (simp add: m0_def base_fields_def)
  have p1: "map_of m1 ''pdf_raw'' = Some (JStr [])"
    unfolding m1_def using x by (intro step_pdf_on_failure [OF _ g p0]) auto
  have a1: "map_of m1 ''abstract'' = Some (JStr (py_strip a))"
    by (simp add: m1_def step_pdf_other) (simp add: m0_def base_fields_def)
  have s1: "map_of m1 ''summary'' = Some JNull"
    by (simp add: m1_def step_pdf_other) (simp add: m0_def base_fields_def)
  have p: "map_of m ''pdf_raw'' = Some (JStr [])"
    using p1 by (simp add: m step_llm_other)
  have s: "map_of m ''summary'' = Some JNull \<or>
         (\<exists>result. llm_extract_metadata env (py_strip a) (nometadata_prompt env) = Inr (JObj result) \<and>
            map_of m ''summary'' = Some (get_or result ''summary'' (JStr [])))"
    unfolding m by (rule step_llm_fallback [OF p1 a1 s1])
  from p s x extract_metadata_arxiv_id [OF e] show ?thesis by simp
qed

lemma enrich_all_states:
  assumes "\<forall>d \<in> set docs. (\<exists>t. get_str d ''title'' = Inr t) \<and> (\<exists>a. get_str d ''abstract'' = Inr a)"
  shows "\<exists>ms fss.
           length ms = length docs \<and> length fss = Suc (length docs) \<and> fss ! 0 = files \<and>
           (\<forall>j < length docs.
              extract_metadata env (fss ! j) (docs ! j) = (Inr (ms ! j), fss ! Suc j)) \<and>
           enrich_all env files (map JObj docs) = (Inr ms, last fss)"
  using assms
proof (induction docs arbitrary: files)
  case Nil
  show ?case by (intro exI [of _ "[]"] exI [of _ "[files]"]) simp
next
  case (Cons d docs)
  from Cons.prems obtain t a where
    t: "get_str d ''title'' = Inr t" and a: "get_str d ''abstract'' = Inr a" by auto
  define m where "m = step_llm env (fst (step_pdf env files d (base_fields env d t a)))"
  define files1 where "files1 = snd (step_pdf env files d (base_fields env d t a))"
  have e: "extract_metadata env files d = (Inr m, files1)"
    unfolding m_def files1_def by (rule extract_metadata_total [OF t a])
  from Cons.prems have "\<forall>d \<in> set docs. (\<exists>t. get_str d ''title'' = Inr t) \<and> (\<exists>a. get_str d ''abstract'' = Inr a)"
    by simp
  from Cons.IH [OF this, of files1] obtain ms fss where
    l1: "length ms = length docs" and l2: "length fss = Suc (length docs)"
    and f0: "fss ! 0 = files1"
    and st: "\<forall>j < length docs.
              extract_metadata env (fss ! j) (docs ! j) = (Inr (ms ! j), fss ! Suc j)"
    and en: "enrich_all env files1 (map JObj docs) = (Inr ms, last fss)"
    by blast
  from l2 have ne: "fss \<noteq> []" by auto
  have st': "\<forall>j < length (d # docs).
              extract_metadata env ((files # fss) ! j) ((d # docs) ! j)
                = (Inr ((m # ms) ! j), (files # fss) ! Suc j)"
  proof (intro allI impI)
    fix j assume j: "j < length (d # docs)"
    show "extract_metadata env ((files # fss) ! j) ((d # docs) ! j)
                = (Inr ((m # ms) ! j), (files # fss) ! Suc j)"
    proof (cases j)
      case 0
      with e f0 show ?thesis by simp
    next
      case (Suc i)
      with j have "i < length docs" by simp
      with st Suc show ?thesis by simp
    qed
  qed
  from e en ne have "enrich_all env files (map JObj (d # docs)) = (Inr (m # ms), last (files # fss))"
    by simp
  with l1 l2 st' show ?case
    by (intro exI [of _ "m # ms"] exI [of _ "files # fss"]) simp
qed

lemma extract_metadata_files:
  assumes "extract_metadata env files doc = (r, files1)"
      and "\<not> prefix ''data/pdf_cache/'' p"
  shows "files1 p = files p"
proof -
  have d: "\<And>u force x f1. download_pdf env files u force = (x, f1) \<Longrightarrow> f1 p = files p"
    using assms(2)
    by (auto simp: download_pdf_def cached_pdf_path_def Let_def split: if_splits download.splits)
  have x: "\<And>u force x f1. extract_first_page_text env files u force = (x, f1) \<Longrightarrow> f1 p = files p"
    by (auto simp: extract_first_page_text_def split: prod.splits sum.splits option.splits if_splits
             dest: d)
  have s: "\<And>m m1 f1. step_pdf env files doc m = (m1, f1) \<Longrightarrow> f1 p = files p"
    by (auto simp: step_pdf_def Let_def split: if_splits jval.splits prod.splits sum.splits dest: x)
  from assms(1) show ?thesis
    by (auto simp: extract_metadata_def Let_def split: sum.splits prod.splits dest: s)
qed

lemma states_files:
  assumes "length fss = Suc n"
      and "\<forall>j < n. \<exists>r. extract_metadata env (fss ! j) (docs ! j) = (r, fss ! Suc j)"
      and "\<not> prefix ''data/pdf_cache/'' p"
      and "j \<le> n"
  shows "(fss ! j) p = (fss ! 0) p"
  using assms(4)
proof (induction j)
  case 0
  show ?case by simp
next
  case (Suc j)
  then have "j < n" by simp
  with assms(2) obtain r where "extract_metadata env (fss ! j) (docs ! j) = (r, fss ! Suc j)"
    by blast
  from extract_metadata_files [OF this assms(3)] Suc show ?case by simp
qed

lemma doc_example_file:
  "read_records (json_loads env_fallback) (file_lines (''{doc}'' @ [CHR 0x0A])) = Inr (map JObj [doc_example])"
  by (simp add: file_lines_def ndjson_lines_def env_fallback_def env_offline_def strip_defs)

text \<open>
  Claim C8. The de-duplication step of the harvester drops every converted record whose
  identifier is empty, whether or not the record is a duplicate: when the crawl returns,
  the staging file holds the serialised records of the de-duplicated list, none of them
  has an empty \<open>arxiv_id\<close>, and a feed entry whose converted identifier is empty is
  not among them.
\<close>

theorem crawl_skips_empty_identifier:
  assumes "crawl_arxiv_to_jsonl srv dumps abspath timestamp files cs max_results query = Inr ((n, p), files')"
  shows "\<exists>entries. fetch_results srv (build_query cs query) max_results = Inr entries \<and>
     (let docs = dedupe_loop {} [] (map (\<lambda>e. entry_to_rawdoc e (Some (take 8 timestamp))) entries)
      in files' (outpath timestamp cs) = Some (join [CHR 0x0A] (map dumps docs)) \<and>
         n = length docs \<and>
         (\<forall>d \<in> set docs. arxiv_id d \<noteq> []) \<and>
         (\<forall>e \<in> set entries. arxiv_id (entry_to_rawdoc e (Some (take 8 timestamp))) = [] \<longrightarrow>
             entry_to_rawdoc e (Some (take 8 timestamp)) \<notin> set docs))"
proof -
  from crawl_result [OF assms] obtain entries where
    e: "fetch_results srv (build_query cs query) max_results = Inr entries"
    and n: "n = length (dedupe_loop {} [] (map (\<lambda>e. entry_to_rawdoc e (Some (take 8 timestamp))) entries))"
    and f: "files' = files(outpath timestamp cs \<mapsto>
             join [CHR 0x0A] (map dumps (dedupe_loop {} [] (map (\<lambda>e. entry_to_rawdoc e (Some (take 8 timestamp))) entries))))"
    by blast
  have ne: "\<And>d rs. d \<in> set (dedupe_loop {} [] rs) \<Longrightarrow> arxiv_id d \<noteq> []"
    by (drule dedupe_loop_sound) simp
  show ?thesis
    using e n f ne by (intro exI [of _ entries]) (auto simp: Let_def)
qed

theorem crawl_skips_empty_identifier_witness:
  "crawl_arxiv_to_jsonl
      (feed_pages [Resp 200 [mk_entry None (Some ''no id''),
                             mk_entry (Some ''http://arxiv.org/abs/2401.00001v1'') (Some ''kept'')]])
      dumps_brief (\<lambda>p. p) ''20240101_120000'' Map.empty [''cs.AI''] 2 None
    = Inr ((1, ''data/raw/20240101_120000_cs_AI.jsonl''),
           [''data/raw/20240101_120000_cs_AI.jsonl'' \<mapsto> ''{2401.00001v1 kept}''])
   \<and> (\<exists>entries. fetch_results
          (feed_pages [Resp 200 [mk_entry None (Some ''no id''),
                             mk_entry (Some ''http://arxiv.org/abs/2401.00001v1'') (Some ''kept'')]])
          (build_query [''cs.AI''] None) 2 = Inr entries \<and>
     (let docs = dedupe_loop {} [] (map (\<lambda>e. entry_to_rawdoc e (Some (take 8 ''20240101_120000''))) entries)
      in [''data/raw/20240101_120000_cs_AI.jsonl'' \<mapsto> ''{2401.00001v1 kept}'']
           (outpath ''20240101_120000'' [''cs.AI'']) = Some (join [CHR 0x0A] (map dumps_brief docs)) \<and>
         (1::nat) = length docs \<and>
         (\<forall>d \<in> set docs. arxiv_id d \<noteq> []) \<and>
         (\<forall>e \<in> set entries. arxiv_id (entry_to_rawdoc e (Some (take 8 ''20240101_120000''))) = [] \<longrightarrow>
             entry_to_rawdoc e (Some (take 8 ''20240101_120000'')) \<notin> set docs)))"
proof -
  have h: "crawl_arxiv_to_jsonl
      (feed_pages [Resp 200 [mk_entry None (Some ''no id''),
                             mk_entry (Some ''http://arxiv.org/abs/2401.00001v1'') (Some ''kept'')]])
      dumps_brief (\<lambda>p. p) ''20240101_120000'' Map.empty [''cs.AI''] 2 None
    = Inr ((1, ''data/raw/20240101_120000_cs_AI.jsonl''),
           [''data/raw/20240101_120000_cs_AI.jsonl'' \<mapsto> ''{2401.00001v1 kept}''])"
    by (simp add: crawl_arxiv_to_jsonl_def fetch_results_def fetch_loop.simps feed_pages_def
        mk_entry_def entry_to_rawdoc_def rsplit_last_def or_empty_def strip_defs
        dumps_brief_def escape_char_def outpath_def cats_name_def build_query_def write_jsonl_def Let_def)
  from h crawl_skips_empty_identifier [OF h] show ?thesis by (rule conjI)
qed




text \<open>
  Claim C3, as amended. Every run of the harvester is described by the pages it received:
  request \<open>i\<close> starts at the number of entries of the pages before it and, while
  fewer than \<open>max_results\<close> entries are in, returned status 200 with entries. At the
  request after the last such page one of two things happens. Either the request raises
  (connection error, timeout): then the exception leaves \<open>_fetch_results\<close> and
  \<open>crawl_arxiv_to_jsonl\<close>, which returns no result and does not reach the write. Or
  paging stops, because \<open>max_results\<close> entries are in, or the request returned a
  non-success status or a page without entries: then the entries of all pages received so
  far, in order, are what \<open>_fetch_results\<close> returns, and the crawl converts,
  de-duplicates and writes them to the staging file and returns normally.
\<close>

theorem harvester_keeps_partial_results:
  "\<exists>pages.
     (\<forall>i < length pages.
        received pages i < max_results \<and>
        srv i (build_query cs query) (received pages i) (min 2000 (max_results - received pages i))
          = Resp 200 (pages ! i) \<and>
        pages ! i \<noteq> []) \<and>
     ((received pages (length pages) < max_results \<and>
       srv (length pages) (build_query cs query) (received pages (length pages))
           (min 2000 (max_results - received pages (length pages))) = Raises \<and>
       fetch_results srv (build_query cs query) max_results = Inl RequestException \<and>
       crawl_arxiv_to_jsonl srv dumps abspath timestamp files cs max_results query
         = Inl RequestException)
      \<or> ((max_results \<le> received pages (length pages) \<or>
           (\<exists>status es.
              srv (length pages) (build_query cs query) (received pages (length pages))
                  (min 2000 (max_results - received pages (length pages))) = Resp status es \<and>
              (status \<noteq> 200 \<or> es = []))) \<and>
          fetch_results srv (build_query cs query) max_results = Inr (concat pages) \<and>
          crawl_arxiv_to_jsonl srv dumps abspath timestamp files cs max_results query
            = Inr ((length (dedupe_loop {} []
                      (map (\<lambda>e. entry_to_rawdoc e (Some (take 8 timestamp))) (concat pages))),
                    abspath (outpath timestamp cs)),
                   files(outpath timestamp cs \<mapsto>
                     join [CHR 0x0A] (map dumps (dedupe_loop {} []
                       (map (\<lambda>e. entry_to_rawdoc e (Some (take 8 timestamp))) (concat pages))))))))"
proof -
  from fetch_loop_run [of 0 max_results srv 0 "build_query cs query" "[]"]
  obtain pages where
    pg: "\<forall>i < length pages.
        received pages i < max_results \<and>
        srv i (build_query cs query) (received pages i) (min 2000 (max_results - received pages i))
          = Resp 200 (pages ! i) \<and>
        pages ! i \<noteq> []"
    and out: "(received pages (length pages) < max_results \<and>
       srv (length pages) (build_query cs query) (received pages (length pages))
           (min 2000 (max_results - received pages (length pages))) = Raises \<and>
       fetch_results srv (build_query cs query) max_results = Inl RequestException)
      \<or> ((max_results \<le> received pages (length pages) \<or>
           (\<exists>status es.
              srv (length pages) (build_query cs query) (received pages (length pages))
                  (min 2000 (max_results - received pages (length pages))) = Resp status es \<and>
              (status \<noteq> 200 \<or> es = []))) \<and>
          fetch_results srv (build_query cs query) max_results = Inr (concat pages))"
    unfolding fetch_results_def by auto
  from out show ?thesis
  proof
    assume r: "received pages (length pages) < max_results \<and>
       srv (length pages) (build_query cs query) (received pages (length pages))
           (min 2000 (max_results - received pages (length pages))) = Raises \<and>
       fetch_results srv (build_query cs query) max_results = Inl RequestException"
    then have "crawl_arxiv_to_jsonl srv dumps abspath timestamp files cs max_results query
                 = Inl RequestException"
      by (simp add: crawl_arxiv_to_jsonl_def Let_def)
    with pg r show ?thesis by (intro exI [of _ pages]) simp
  next
    assume s: "(max_results \<le> received pages (length pages) \<or>
           (\<exists>status es.
              srv (length pages) (build_query cs query) (received pages (length pages))
                  (min 2000 (max_results - received pages (length pages))) = Resp status es \<and>
              (status \<noteq> 200 \<or> es = []))) \<and>
          fetch_results srv (build_query cs query) max_results = Inr (concat pages)"
    then have "crawl_arxiv_to_jsonl srv dumps abspath timestamp files cs max_results query
            = Inr ((length (dedupe_loop {} []
                      (map (\<lambda>e. entry_to_rawdoc e (Some (take 8 timestamp))) (concat pages))),
                    abspath (outpath timestamp cs)),
                   files(outpath timestamp cs \<mapsto>
                     join [CHR 0x0A] (map dumps (dedupe_loop {} []
                       (map (\<lambda>e. entry_to_rawdoc e (Some (take 8 timestamp))) (concat pages))))))"
      by (simp add: crawl_arxiv_to_jsonl_def Let_def write_jsonl_def write_loop_eq)
    with pg s show ?thesis by (intro exI [of _ pages]) simp
  qed
qed

theorem harvester_keeps_partial_results_witness:
  "(\<exists>pages.
     (\<forall>i < length pages.
        received pages i < 5 \<and>
        feed_pages [Resp 200 [mk_entry (Some ''http://arxiv.org/abs/2401.00001'') (Some ''first'')],
                    Resp 503 []] i (build_query [''cs.AI''] None) (received pages i)
            (min 2000 (5 - received pages i))
          = Resp 200 (pages ! i) \<and>
        pages ! i \<noteq> []) \<and>
     ((received pages (length pages) < 5 \<and>
       feed_pages [Resp 200 [mk_entry (Some ''http://arxiv.org/abs/2401.00001'') (Some ''first'')],
                   Resp 503 []] (length pages) (build_query [''cs.AI''] None)
           (received pages (length pages))
           (min 2000 (5 - received pages (length pages))) = Raises \<and>
       fetch_results
         (feed_pages [Resp 200 [mk_entry (Some ''http://arxiv.org/abs/2401.00001'') (Some ''first'')],
                      Resp 503 []]) (build_query [''cs.AI''] None) 5 = Inl RequestException \<and>
       crawl_arxiv_to_jsonl
         (feed_pages [Resp 200 [mk_entry (Some ''http://arxiv.org/abs/2401.00001'') (Some ''first'')],
                      Resp 503 []])
         dumps_brief (\<lambda>p. p) ''20240101_120000'' Map.empty [''cs.AI''] 5 None
         = Inl RequestException)
      \<or> ((5 \<le> received pages (length pages) \<or>
           (\<exists>status es.
              feed_pages [Resp 200 [mk_entry (Some ''http://arxiv.org/abs/2401.00001'') (Some ''first'')],
                          Resp 503 []] (length pages) (build_query [''cs.AI''] None)
                  (received pages (length pages))
                  (min 2000 (5 - received pages (length pages))) = Resp status es \<and>
              (status \<noteq> 200 \<or> es = []))) \<and>
          fetch_results
            (feed_pages [Resp 200 [mk_entry (Some ''http://arxiv.org/abs/2401.00001'') (Some ''first'')],
                         Resp 503 []]) (build_query [''cs.AI''] None) 5 = Inr (concat pages) \<and>
          crawl_arxiv_to_jsonl
            (feed_pages [Resp 200 [mk_entry (Some ''http://arxiv.org/abs/2401.00001'') (Some ''first'')],
                         Resp 503 []])
            dumps_brief (\<lambda>p. p) ''20240101_120000'' Map.empty [''cs.AI''] 5 None
            = Inr ((length (dedupe_loop {} []
                      (map (\<lambda>e. entry_to_rawdoc e (Some (take 8 ''20240101_120000''))) (concat pages))),
                    (\<lambda>p. p) (outpath ''20240101_120000'' [''cs.AI''])),
                   Map.empty(outpath ''20240101_120000'' [''cs.AI''] \<mapsto>
                     join [CHR 0x0A] (map dumps_brief (dedupe_loop {} []
                       (map (\<lambda>e. entry_to_rawdoc e (Some (take 8 ''20240101_120000'')))
                          (concat pages)))))))))
   \<and> fetch_results
        (feed_pages [Resp 200 [mk_entry (Some ''http://arxiv.org/abs/2401.00001'') (Some ''first'')],
                     Resp 503 []]) (build_query [''cs.AI''] None) 5
      = Inr [mk_entry (Some ''http://arxiv.org/abs/2401.00001'') (Some ''first'')]
   \<and> crawl_arxiv_to_jsonl
        (feed_pages [Resp 200 [mk_entry (Some ''http://arxiv.org/abs/2401.00001'') (Some ''first'')],
                     Resp 503 []])
        dumps_brief (\<lambda>p. p) ''20240101_120000'' Map.empty [''cs.AI''] 5 None
      = Inr ((1, ''data/raw/20240101_120000_cs_AI.jsonl''),
             [''data/raw/20240101_120000_cs_AI.jsonl'' \<mapsto> ''{2401.00001 first}''])"
  (is "?T \<and> ?F \<and> ?C")
proof -
  have t: ?T
    by (rule harvester_keeps_partial_results
               [of 5 "feed_pages [Resp 200 [mk_entry (Some ''http://arxiv.org/abs/2401.00001'') (Some ''first'')],
                                  Resp 503 []]"
                   "[''cs.AI'']" None dumps_brief "\<lambda>p. p" "''20240101_120000''" Map.empty])
  have f: ?F
    by (simp add: fetch_results_def fetch_loop.simps feed_pages_def build_query_def
        or_empty_def strip_defs Let_def)
  have c: ?C
    by (simp add: crawl_arxiv_to_jsonl_def fetch_results_def fetch_loop.simps feed_pages_def
        mk_entry_def entry_to_rawdoc_def rsplit_last_def or_empty_def strip_defs
        dumps_brief_def escape_char_def outpath_def cats_name_def build_query_def write_jsonl_def Let_def)
  from t f c show ?thesis by (intro conjI)
qed

text \<open>
  Claim C3 as stated fails when a page request raises (connection error, timeout): the
  exception leaves \<open>_fetch_results\<close> and \<open>crawl_arxiv_to_jsonl\<close>, and the
  entries of the pages before it are not written.
\<close>

theorem harvester_raises_counterexample:
  "crawl_arxiv_to_jsonl
      (feed_pages [Resp 200 [mk_entry (Some ''http://arxiv.org/abs/2401.00001'') (Some ''first'')],
                   Raises])
      dumps_brief (\<lambda>p. p) ''20240101_120000'' Map.empty [''cs.AI''] 5 None
    = Inl RequestException"
  by (simp add: crawl_arxiv_to_jsonl_def fetch_results_def fetch_loop.simps feed_pages_def
        build_query_def strip_defs or_empty_def Let_def)

text \<open>
  Claim C10. Every record that \<open>extract_metadata\<close> produces has the same fifteen
  keys, in the order of the dictionary literal, whatever the language detection, the
  PDF extraction and the completion service do, and its \<open>locations\<close> field is the
  empty list.
\<close>

theorem enriched_record_keys:
  assumes "extract_metadata env files doc = (Inr m, files')"
  shows "map fst m =
           [''arxiv_id'', ''title'', ''abstract'', ''authors'', ''categories'', ''primary_category'',
            ''published_date'', ''url_pdf'', ''crawl_date'', ''language'', ''pdf_raw'', ''summary'',
            ''affiliations'', ''keywords'', ''locations'']
         \<and> map_of m ''locations'' = Some (JArr [])"
proof -
  from extract_metadata_Inr [OF assms] obtain t a where
    m: "m = step_llm env (fst (step_pdf env files doc (base_fields env doc t a)))"
    by blast
  have k: "map fst m = record_keys"
    unfolding m by (intro step_llm_keys step_pdf_keys base_fields_keys)
  have l: "map_of m ''locations'' = Some (JArr [])"
    unfolding m by (simp add: step_llm_other step_pdf_other) (simp add: base_fields_def)
  from k l show ?thesis by (simp add: record_keys_def)
qed

theorem enriched_record_keys_witness:
  "extract_metadata env_offline Map.empty
      [(''arxiv_id'', JStr ''2401.00001''), (''title'', JStr '' A title ''),
       (''url_pdf'', JStr ''http://arxiv.org/pdf/2401.00001'')]
     = (Inr [(''arxiv_id'', JStr ''2401.00001''), (''title'', JStr ''A title''),
             (''abstract'', JStr []), (''authors'', JArr []), (''categories'', JArr []),
             (''primary_category'', JStr []), (''published_date'', JNull),
             (''url_pdf'', JStr ''http://arxiv.org/pdf/2401.00001''), (''crawl_date'', JNull),
             (''language'', JStr ''unknown''), (''pdf_raw'', JStr []), (''summary'', JNull),
             (''affiliations'', JArr []), (''keywords'', JArr []), (''locations'', JArr [])],
        Map.empty)
   \<and> map fst [(''arxiv_id'', JStr ''2401.00001''), (''title'', JStr ''A title''),
             (''abstract'', JStr []), (''authors'', JArr []), (''categories'', JArr []),
             (''primary_category'', JStr []), (''published_date'', JNull),
             (''url_pdf'', JStr ''http://arxiv.org/pdf/2401.00001''), (''crawl_date'', JNull),
             (''language'', JStr ''unknown''), (''pdf_raw'', JStr []), (''summary'', JNull),
             (''affiliations'', JArr []), (''keywords'', JArr []), (''locations'', JArr [])] =
           [''arxiv_id'', ''title'', ''abstract'', ''authors'', ''categories'', ''primary_category'',
            ''published_date'', ''url_pdf'', ''crawl_date'', ''language'', ''pdf_raw'', ''summary'',
            ''affiliations'', ''keywords'', ''locations'']
   \<and> map_of [(''arxiv_id'', JStr ''2401.00001''), (''title'', JStr ''A title''),
             (''abstract'', JStr []), (''authors'', JArr []), (''categories'', JArr []),
             (''primary_category'', JStr []), (''published_date'', JNull),
             (''url_pdf'', JStr ''http://arxiv.org/pdf/2401.00001''), (''crawl_date'', JNull),
             (''language'', JStr ''unknown''), (''pdf_raw'', JStr []), (''summary'', JNull),
             (''affiliations'', JArr []), (''keywords'', JArr []), (''locations'', JArr [])]
        ''locations'' = Some (JArr [])"
proof -
  have h: "extract_metadata env_offline Map.empty
      [(''arxiv_id'', JStr ''2401.00001''), (''title'', JStr '' A title ''),
       (''url_pdf'', JStr ''http://arxiv.org/pdf/2401.00001'')]
     = (Inr [(''arxiv_id'', JStr ''2401.00001''), (''title'', JStr ''A title''),
             (''abstract'', JStr []), (''authors'', JArr []), (''categories'', JArr []),
             (''primary_category'', JStr []), (''published_date'', JNull),
             (''url_pdf'', JStr ''http://arxiv.org/pdf/2401.00001''), (''crawl_date'', JNull),
             (''language'', JStr ''unknown''), (''pdf_raw'', JStr []), (''summary'', JNull),
             (''affiliations'', JArr []), (''keywords'', JArr []), (''locations'', JArr [])],
        Map.empty)"
    by (simp add: extract_metadata_def base_fields_def step_pdf_def step_llm_def get_str_def
        get_or_def env_offline_def extract_first_page_text_def download_pdf_def
        cached_pdf_path_def llm_extract_metadata_def detect_language_def strip_defs Let_def)
  from h enriched_record_keys [OF h] show ?thesis by (rule conjI)
qed

text \<open>
  Claim C6, as amended. Take a staging file whose records are objects with a string (or
  no) title and abstract. Then every record is enriched: \<open>extract_metadata\<close> returns
  a record for each document, in order, the cache of downloaded files being carried from
  one document to the next. For a document with a string \<open>url_pdf\<close> whose download
  fails (no cached file, and the request is refused or breaks) or whose parse fails
  (PyMuPDF cannot read the cached or downloaded file), the record carries the document's
  identifier, its \<open>pdf_raw\<close> is the empty string, its summary is \<open>None\<close> or the
  summary of the answer to the abstract-only prompt, and, for an address that starts with
  \<open>http\<close>, \<open>extract_first_page_text\<close> returns the empty text and raises nothing.
  \<open>process_raw_file\<close> writes exactly these records, each followed by a newline, under
  the name of its input and archives the input; only when the text of a record cannot be
  encoded does the write raise, after the records before it, and the input stays where it
  was.
\<close>

theorem enrichment_degrades_gracefully:
  assumes fl: "files (''data/raw/'' @ name) = Some content"
      and recs: "read_records (json_loads env) (file_lines content) = Inr (map JObj docs)"
      and wf: "\<forall>d \<in> set docs. (\<exists>t. get_str d ''title'' = Inr t) \<and> (\<exists>a. get_str d ''abstract'' = Inr a)"
  shows "\<exists>ms fss.
     length ms = length docs \<and> length fss = Suc (length docs) \<and> fss ! 0 = files \<and>
     (\<forall>j < length docs.
        extract_metadata env (fss ! j) (docs ! j) = (Inr (ms ! j), fss ! Suc j)) \<and>
     (\<forall>j < length docs. \<forall>u a.
        map_of (docs ! j) ''url_pdf'' = Some (JStr u) \<longrightarrow>
        get_str (docs ! j) ''abstract'' = Inr a \<longrightarrow>
        ((fss ! j) (cached_pdf_path env u) = None \<and> (\<forall>b. http_get env u \<noteq> Body b))
          \<or> (\<exists>c. read_pdf env c = Unreadable \<and>
                 ((fss ! j) (cached_pdf_path env u) = Some c
                  \<or> ((fss ! j) (cached_pdf_path env u) = None \<and> http_get env u = Body c))) \<longrightarrow>
        map_of (ms ! j) ''arxiv_id'' = Some (get_or (docs ! j) ''arxiv_id'' JNull) \<and>
        map_of (ms ! j) ''pdf_raw'' = Some (JStr []) \<and>
        (map_of (ms ! j) ''summary'' = Some JNull \<or>
         (\<exists>result. llm_extract_metadata env (py_strip a) (nometadata_prompt env) = Inr (JObj result) \<and>
            map_of (ms ! j) ''summary'' = Some (get_or result ''summary'' (JStr [])))) \<and>
        (u \<noteq> [] \<and> prefix ''http'' u \<longrightarrow>
           fst (extract_first_page_text env (fss ! j) u False) = Inr [])) \<and>
     process_raw_file env files (''data/raw'', name) =
       (if list_ex (\<lambda>m. has_surrogate (json_dumps env m)) ms
        then (Inl UnicodeEncodeError,
              (last fss)(''data/processed/'' @ name \<mapsto>
                 concat (map (\<lambda>m. json_dumps env m @ [CHR 0x0A])
                           (takeWhile (\<lambda>m. \<not> has_surrogate (json_dumps env m)) ms))))
        else (Inr (),
              (last fss)(''data/processed/'' @ name \<mapsto>
                           concat (map (\<lambda>m. json_dumps env m @ [CHR 0x0A]) ms),
                         ''data/raw/'' @ name := None,
                         ''data/archive/'' @ name \<mapsto> content)))"
proof -
  from enrich_all_states [OF wf, of files env] obtain ms fss where
    l1: "length ms = length docs" and l2: "length fss = Suc (length docs)"
    and f0: "fss ! 0 = files"
    and st: "\<forall>j < length docs.
              extract_metadata env (fss ! j) (docs ! j) = (Inr (ms ! j), fss ! Suc j)"
    and en: "enrich_all env files (map JObj docs) = (Inr ms, last fss)"
    by blast
  have deg: "\<forall>j < length docs. \<forall>u a.
        map_of (docs ! j) ''url_pdf'' = Some (JStr u) \<longrightarrow>
        get_str (docs ! j) ''abstract'' = Inr a \<longrightarrow>
        ((fss ! j) (cached_pdf_path env u) = None \<and> (\<forall>b. http_get env u \<noteq> Body b))
          \<or> (\<exists>c. read_pdf env c = Unreadable \<and>
                 ((fss ! j) (cached_pdf_path env u) = Some c
                  \<or> ((fss ! j) (cached_pdf_path env u) = None \<and> http_get env u = Body c))) \<longrightarrow>
        map_of (ms ! j) ''arxiv_id'' = Some (get_or (docs ! j) ''arxiv_id'' JNull) \<and>
        map_of (ms ! j) ''pdf_raw'' = Some (JStr []) \<and>
        (map_of (ms ! j) ''summary'' = Some JNull \<or>
         (\<exists>result. llm_extract_metadata env (py_strip a) (nometadata_prompt env) = Inr (JObj result) \<and>
            map_of (ms ! j) ''summary'' = Some (get_or result ''summary'' (JStr [])))) \<and>
        (u \<noteq> [] \<and> prefix ''http'' u \<longrightarrow>
           fst (extract_first_page_text env (fss ! j) u False) = Inr [])"
  proof (intro allI impI)
    fix j u a
    assume j: "j < length docs"
      and url: "map_of (docs ! j) ''url_pdf'' = Some (JStr u)"
      and a: "get_str (docs ! j) ''abstract'' = Inr a"
      and fail: "((fss ! j) (cached_pdf_path env u) = None \<and> (\<forall>b. http_get env u \<noteq> Body b))
          \<or> (\<exists>c. read_pdf env c = Unreadable \<and>
                 ((fss ! j) (cached_pdf_path env u) = Some c
                  \<or> ((fss ! j) (cached_pdf_path env u) = None \<and> http_get env u = Body c)))"
    from j wf obtain t where t: "get_str (docs ! j) ''title'' = Inr t" by (meson nth_mem)
    from st j have e: "extract_metadata env (fss ! j) (docs ! j) = (Inr (ms ! j), fss ! Suc j)"
      by simp
    show "map_of (ms ! j) ''arxiv_id'' = Some (get_or (docs ! j) ''arxiv_id'' JNull) \<and>
        map_of (ms ! j) ''pdf_raw'' = Some (JStr []) \<and>
        (map_of (ms ! j) ''summary'' = Some JNull \<or>
         (\<exists>result. llm_extract_metadata env (py_strip a) (nometadata_prompt env) = Inr (JObj result) \<and>
            map_of (ms ! j) ''summary'' = Some (get_or result ''summary'' (JStr [])))) \<and>
        (u \<noteq> [] \<and> prefix ''http'' u \<longrightarrow>
           fst (extract_first_page_text env (fss ! j) u False) = Inr [])"
      using fail
      by (rule extract_metadata_on_failure
                 [where files = "fss ! j" and env = env and u = u, OF t a url _ e])
  qed
  have "\<forall>j < length docs. \<exists>r. extract_metadata env (fss ! j) (docs ! j) = (r, fss ! Suc j)"
    using st by blast
  from states_files [OF l2 this, of "''data/raw/'' @ name" "length docs"]
  have sf: "(fss ! length docs) (''data/raw/'' @ name) = (fss ! 0) (''data/raw/'' @ name)"
    by simp
  from l2 have ne: "fss \<noteq> []" by auto
  with l2 have lst: "last fss = fss ! length docs" by (simp add: last_conv_nth)
  from sf lst f0 fl have raw: "last fss (''data/raw/'' @ name) = Some content"
    by simp
  from process_raw_file_result [OF fl recs en] raw
  have out: "process_raw_file env files (''data/raw'', name) =
       (if list_ex (\<lambda>m. has_surrogate (json_dumps env m)) ms
        then (Inl UnicodeEncodeError,
              (last fss)(''data/processed/'' @ name \<mapsto>
                 concat (map (\<lambda>m. json_dumps env m @ [CHR 0x0A])
                           (takeWhile (\<lambda>m. \<not> has_surrogate (json_dumps env m)) ms))))
        else (Inr (),
              (last fss)(''data/processed/'' @ name \<mapsto>
                           concat (map (\<lambda>m. json_dumps env m @ [CHR 0x0A]) ms),
                         ''data/raw/'' @ name := None,
                         ''data/archive/'' @ name \<mapsto> content)))"
    by simp
  from l1 l2 f0 st deg out show ?thesis
    by (intro exI [of _ ms] exI [of _ fss]) (intro conjI; assumption)
qed

theorem enrichment_degrades_gracefully_witness:
  "[''data/raw/a.jsonl'' \<mapsto> ''{doc}'' @ [CHR 0x0A]] (''data/raw/'' @ ''a.jsonl'') = Some (''{doc}'' @ [CHR 0x0A])
   \<and> read_records (json_loads env_fallback) (file_lines (''{doc}'' @ [CHR 0x0A])) = Inr (map JObj [doc_example])
   \<and> (\<exists>t. get_str doc_example ''title'' = Inr t) \<and> (\<exists>a. get_str doc_example ''abstract'' = Inr a)
   \<and> process_raw_file env_fallback [''data/raw/a.jsonl'' \<mapsto> ''{doc}'' @ [CHR 0x0A]]
        (''data/raw'', ''a.jsonl'')
      = (Inr (), [''data/processed/a.jsonl'' \<mapsto> ''{2401.00001}'' @ [CHR 0x0A],
                  ''data/archive/a.jsonl'' \<mapsto> ''{doc}'' @ [CHR 0x0A]])
   \<and> (\<exists>ms fss.
     length ms = length [doc_example] \<and> length fss = Suc (length [doc_example]) \<and>
     fss ! 0 = [''data/raw/a.jsonl'' \<mapsto> ''{doc}'' @ [CHR 0x0A]] \<and>
     (\<forall>j < length [doc_example].
        extract_metadata env_fallback (fss ! j) ([doc_example] ! j) = (Inr (ms ! j), fss ! Suc j)) \<and>
     (\<forall>j < length [doc_example]. \<forall>u a.
        map_of ([doc_example] ! j) ''url_pdf'' = Some (JStr u) \<longrightarrow>
        get_str ([doc_example] ! j) ''abstract'' = Inr a \<longrightarrow>
        ((fss ! j) (cached_pdf_path env_fallback u) = None \<and> (\<forall>b. http_get env_fallback u \<noteq> Body b))
          \<or> (\<exists>c. read_pdf env_fallback c = Unreadable \<and>
                 ((fss ! j) (cached_pdf_path env_fallback u) = Some c
                  \<or> ((fss ! j) (cached_pdf_path env_fallback u) = None \<and> http_get env_fallback u = Body c))) \<longrightarrow>
        map_of (ms ! j) ''arxiv_id'' = Some (get_or ([doc_example] ! j) ''arxiv_id'' JNull) \<and>
        map_of (ms ! j) ''pdf_raw'' = Some (JStr []) \<and>
        (map_of (ms ! j) ''summary'' = Some JNull \<or>
         (\<exists>result. llm_extract_metadata env_fallback (py_strip a) (nometadata_prompt env_fallback) = Inr (JObj result) \<and>
            map_of (ms ! j) ''summary'' = Some (get_or result ''summary'' (JStr [])))) \<and>
        (u \<noteq> [] \<and> prefix ''http'' u \<longrightarrow>
           fst (extract_first_page_text env_fallback (fss ! j) u False) = Inr [])) \<and>
     process_raw_file env_fallback [''data/raw/a.jsonl'' \<mapsto> ''{doc}'' @ [CHR 0x0A]] (''data/raw'', ''a.jsonl'') =
       (if list_ex (\<lambda>m. has_surrogate (json_dumps env_fallback m)) ms
        then (Inl UnicodeEncodeError,
              (last fss)(''data/processed/'' @ ''a.jsonl'' \<mapsto>
                 concat (map (\<lambda>m. json_dumps env_fallback m @ [CHR 0x0A])
                           (takeWhile (\<lambda>m. \<not> has_surrogate (json_dumps env_fallback m)) ms))))
        else (Inr (),
              (last fss)(''data/processed/'' @ ''a.jsonl'' \<mapsto>
                           concat (map (\<lambda>m. json_dumps env_fallback m @ [CHR 0x0A]) ms),
                         ''data/raw/'' @ ''a.jsonl'' := None,
                         ''data/archive/'' @ ''a.jsonl'' \<mapsto> ''{doc}'' @ [CHR 0x0A]))))"
  (is "?F \<and> ?R \<and> ?T \<and> ?A \<and> ?P \<and> ?C")
proof -
  have f: ?F by simp
  have r: ?R by (rule doc_example_file)
  have t: ?T by (simp add: get_str_def get_or_def doc_example_def)
  have a: ?A by (simp add: get_str_def get_or_def doc_example_def)
  have w: "\<forall>d \<in> set [doc_example]. (\<exists>t. get_str d ''title'' = Inr t) \<and> (\<exists>a. get_str d ''abstract'' = Inr a)"
    using t a by simp
  have c: ?C
    by (rule enrichment_degrades_gracefully
               [where files = "[''data/raw/a.jsonl'' \<mapsto> ''{doc}'' @ [CHR 0x0A]]"
                  and name = "''a.jsonl''" and content = "''{doc}'' @ [CHR 0x0A]"
                  and env = env_fallback and docs = "[doc_example]", OF f r w])
  from f r t a process_example c show ?thesis by (intro conjI)
qed

text \<open>
  Claim C6 as stated fails for a document whose title is null: its download is refused,
  and \<open>extract_metadata\<close> raises \<open>AttributeError\<close> at \<open>.strip()\<close>, before
  any PDF step; \<open>process_raw_file\<close> raises with it and writes no enriched file.
\<close>

theorem enrichment_null_title_counterexample:
  "map_of doc_untitled ''url_pdf'' = Some (JStr ''http://arxiv.org/pdf/2401.00002'')
   \<and> Map.empty (cached_pdf_path env_fallback ''http://arxiv.org/pdf/2401.00002'') = None
   \<and> http_get env_fallback ''http://arxiv.org/pdf/2401.00002'' = Refused
   \<and> extract_metadata env_fallback Map.empty doc_untitled = (Inl AttributeError, Map.empty)
   \<and> read_records (json_loads env_fallback) (file_lines (''{untitled}'' @ [CHR 0x0A]))
       = Inr [JObj doc_untitled]
   \<and> fst (process_raw_file env_fallback [''data/raw/b.jsonl'' \<mapsto> ''{untitled}'' @ [CHR 0x0A]]
             (''data/raw'', ''b.jsonl'')) = Inl AttributeError
   \<and> snd (process_raw_file env_fallback [''data/raw/b.jsonl'' \<mapsto> ''{untitled}'' @ [CHR 0x0A]]
             (''data/raw'', ''b.jsonl'')) ''data/processed/b.jsonl'' = None"
  by (simp add: doc_untitled_def env_fallback_def env_offline_def extract_metadata_def
        get_str_def get_or_def process_raw_file_def file_lines_def ndjson_lines_def strip_defs
        Let_def)

text \<open>
  Claim C4, as amended. With a serialiser that, like \<open>json.dumps\<close>, never emits a raw
  newline nor an empty text: the staging file of the harvester holds one serialised
  record per line, the lines separated by single newlines and no newline after the last
  record; the file of the enricher is written under \<open>data/processed\<close> with the base
  name of its input, holds one serialised record per line, and every record, the last one
  included, is followed by a newline.
\<close>

theorem staging_file_format:
  assumes h: "\<forall>d. CHR 0x0A \<notin> set (dumps d) \<and> dumps d \<noteq> []"
      and e: "\<forall>m. CHR 0x0A \<notin> set (json_dumps env m) \<and> json_dumps env m \<noteq> []"
      and c: "crawl_arxiv_to_jsonl srv dumps abspath timestamp files cs max_results query = Inr ((n, p), files1)"
      and r: "process_raw_file env files2 (''data/raw'', name) = (Inr (), files3)"
  shows "(\<exists>docs. length docs = n \<and>
            files1 (outpath timestamp cs) = Some (join [CHR 0x0A] (map dumps docs)) \<and>
            (docs \<noteq> [] \<longrightarrow>
               ndjson_lines (join [CHR 0x0A] (map dumps docs)) =
                 map (\<lambda>d. dumps d @ [CHR 0x0A]) (butlast docs) @ [dumps (last docs)] \<and>
               last (join [CHR 0x0A] (map dumps docs)) \<noteq> CHR 0x0A))
       \<and> (\<exists>ms. files3 (''data/processed/'' @ name) =
                   Some (concat (map (\<lambda>m. json_dumps env m @ [CHR 0x0A]) ms)) \<and>
                 ndjson_lines (concat (map (\<lambda>m. json_dumps env m @ [CHR 0x0A]) ms)) =
                   map (\<lambda>m. json_dumps env m @ [CHR 0x0A]) ms \<and>
                 (ms \<noteq> [] \<longrightarrow>
                    last (concat (map (\<lambda>m. json_dumps env m @ [CHR 0x0A]) ms)) = CHR 0x0A))"
proof (rule conjI)
  from crawl_result [OF c] obtain entries where
    n: "n = length (dedupe_loop {} [] (map (\<lambda>e. entry_to_rawdoc e (Some (take 8 timestamp))) entries))"
    and f: "files1 = files(outpath timestamp cs \<mapsto>
             join [CHR 0x0A] (map dumps (dedupe_loop {} [] (map (\<lambda>e. entry_to_rawdoc e (Some (take 8 timestamp))) entries))))"
    by blast
  define docs where "docs = dedupe_loop {} [] (map (\<lambda>e. entry_to_rawdoc e (Some (take 8 timestamp))) entries)"
  have l: "docs \<noteq> [] \<longrightarrow>
               ndjson_lines (join [CHR 0x0A] (map dumps docs)) =
                 map (\<lambda>d. dumps d @ [CHR 0x0A]) (butlast docs) @ [dumps (last docs)] \<and>
               last (join [CHR 0x0A] (map dumps docs)) \<noteq> CHR 0x0A"
  proof
    assume ne: "docs \<noteq> []"
    from h have hs: "\<forall>d \<in> set docs. CHR 0x0A \<notin> set (dumps d) \<and> dumps d \<noteq> []" by simp
    from h have hn: "\<forall>d \<in> set docs. dumps d \<noteq> []" by simp
    from h have "last (dumps (last docs)) \<in> set (dumps (last docs))" by simp
    with h have "last (dumps (last docs)) \<noteq> CHR 0x0A" by metis
    with last_join [OF ne hn] ndjson_lines_join [OF ne hs]
    show "ndjson_lines (join [CHR 0x0A] (map dumps docs)) =
                 map (\<lambda>d. dumps d @ [CHR 0x0A]) (butlast docs) @ [dumps (last docs)] \<and>
               last (join [CHR 0x0A] (map dumps docs)) \<noteq> CHR 0x0A"
      by simp
  qed
  from n f l show "\<exists>docs. length docs = n \<and>
            files1 (outpath timestamp cs) = Some (join [CHR 0x0A] (map dumps docs)) \<and>
            (docs \<noteq> [] \<longrightarrow>
               ndjson_lines (join [CHR 0x0A] (map dumps docs)) =
                 map (\<lambda>d. dumps d @ [CHR 0x0A]) (butlast docs) @ [dumps (last docs)] \<and>
               last (join [CHR 0x0A] (map dumps docs)) \<noteq> CHR 0x0A)"
    unfolding docs_def by (intro exI [of _ "dedupe_loop {} [] (map (\<lambda>e. entry_to_rawdoc e (Some (take 8 timestamp))) entries)"]) simp
next
  from process_raw_file_Inr [OF r] obtain ms where
    o: "files3 (''data/processed/'' @ name) =
             Some (concat (map (\<lambda>m. json_dumps env m @ [CHR 0x0A]) ms))"
    by blast
  from e have es: "\<forall>m \<in> set ms. CHR 0x0A \<notin> set (json_dumps env m)" by simp
  have "ms \<noteq> [] \<longrightarrow> last (concat (map (\<lambda>m. json_dumps env m @ [CHR 0x0A]) ms)) = CHR 0x0A"
    by (induction ms rule: rev_induct) simp_all
  with o ndjson_lines_records [OF es]
  show "\<exists>ms. files3 (''data/processed/'' @ name) =
                   Some (concat (map (\<lambda>m. json_dumps env m @ [CHR 0x0A]) ms)) \<and>
                 ndjson_lines (concat (map (\<lambda>m. json_dumps env m @ [CHR 0x0A]) ms)) =
                   map (\<lambda>m. json_dumps env m @ [CHR 0x0A]) ms \<and>
                 (ms \<noteq> [] \<longrightarrow>
                    last (concat (map (\<lambda>m. json_dumps env m @ [CHR 0x0A]) ms)) = CHR 0x0A)"
    by blast
qed

theorem staging_file_format_witness:
  "(\<forall>d. CHR 0x0A \<notin> set (dumps_brief d) \<and> dumps_brief d \<noteq> [])
   \<and> (\<forall>m. CHR 0x0A \<notin> set (json_dumps env_fallback m) \<and> json_dumps env_fallback m \<noteq> [])
   \<and> crawl_arxiv_to_jsonl
        (feed_pages [Resp 200 [mk_entry (Some ''http://arxiv.org/abs/2401.00001'') (Some ''one''),
                               mk_entry (Some ''http://arxiv.org/abs/2401.00002'') (Some ''two'')]])
        dumps_brief (\<lambda>p. p) ''20240101_120000'' Map.empty [''cs.AI''] 2 None
      = Inr ((2, ''data/raw/20240101_120000_cs_AI.jsonl''),
             [''data/raw/20240101_120000_cs_AI.jsonl'' \<mapsto>
                ''{2401.00001 one}'' @ [CHR 0x0A] @ ''{2401.00002 two}''])
   \<and> process_raw_file env_fallback [''data/raw/a.jsonl'' \<mapsto> ''{doc}'' @ [CHR 0x0A]]
        (''data/raw'', ''a.jsonl'')
      = (Inr (), [''data/processed/a.jsonl'' \<mapsto> ''{2401.00001}'' @ [CHR 0x0A],
                  ''data/archive/a.jsonl'' \<mapsto> ''{doc}'' @ [CHR 0x0A]])
   \<and> (\<exists>docs. length docs = 2 \<and>
            [''data/raw/20240101_120000_cs_AI.jsonl'' \<mapsto>
                ''{2401.00001 one}'' @ [CHR 0x0A] @ ''{2401.00002 two}'']
              (outpath ''20240101_120000'' [''cs.AI'']) = Some (join [CHR 0x0A] (map dumps_brief docs)) \<and>
            (docs \<noteq> [] \<longrightarrow>
               ndjson_lines (join [CHR 0x0A] (map dumps_brief docs)) =
                 map (\<lambda>d. dumps_brief d @ [CHR 0x0A]) (butlast docs) @ [dumps_brief (last docs)] \<and>
               last (join [CHR 0x0A] (map dumps_brief docs)) \<noteq> CHR 0x0A))
   \<and> (\<exists>ms. [''data/processed/a.jsonl'' \<mapsto> ''{2401.00001}'' @ [CHR 0x0A],
               ''data/archive/a.jsonl'' \<mapsto> ''{doc}'' @ [CHR 0x0A]] (''data/processed/'' @ ''a.jsonl'') =
                   Some (concat (map (\<lambda>m. json_dumps env_fallback m @ [CHR 0x0A]) ms)) \<and>
                 ndjson_lines (concat (map (\<lambda>m. json_dumps env_fallback m @ [CHR 0x0A]) ms)) =
                   map (\<lambda>m. json_dumps env_fallback m @ [CHR 0x0A]) ms \<and>
                 (ms \<noteq> [] \<longrightarrow>
                    last (concat (map (\<lambda>m. json_dumps env_fallback m @ [CHR 0x0A]) ms)) = CHR 0x0A))"
proof -
  have h: "\<forall>d. CHR 0x0A \<notin> set (dumps_brief d) \<and> dumps_brief d \<noteq> []"
    using dumps_brief_line by blast
  have e: "\<forall>m. CHR 0x0A \<notin> set (json_dumps env_fallback m) \<and> json_dumps env_fallback m \<noteq> []"
    using dumps_dict_line by (simp add: env_fallback_def env_offline_def)
  note r = staging_file_format [OF h e crawl_example process_example]
  from h e crawl_example process_example r show ?thesis by (intro conjI) blast+
qed

text \<open>
  Claim C4 as stated fails for the enricher: the enriched file of a one-record staging
  file ends with a newline after its final record.
\<close>

theorem enricher_trailing_newline_counterexample:
  "fst (process_raw_file env_fallback [''data/raw/a.jsonl'' \<mapsto> ''{doc}'' @ [CHR 0x0A]]
          (''data/raw'', ''a.jsonl'')) = Inr ()
   \<and> snd (process_raw_file env_fallback [''data/raw/a.jsonl'' \<mapsto> ''{doc}'' @ [CHR 0x0A]]
          (''data/raw'', ''a.jsonl'')) ''data/processed/a.jsonl''
       = Some (''{2401.00001}'' @ [CHR 0x0A])
   \<and> last (''{2401.00001}'' @ [CHR 0x0A]) = CHR 0x0A"
  using process_example by simp

end
